theory Spec2Isabelle
  imports Main
begin

section \<open>Data model\<close>

text \<open>
  The element \<^verbatim>\<open>pxn-canvas-2d\<close> (class \<^verbatim>\<open>Canvas2d\<close>) keeps a set of 2d shapes and,
  through its shapes manager, a set of selected ("target") shapes. Shapes travel through
  the clipboard as JSON text, so the data a shape carries is a value as \<^verbatim>\<open>JSON.parse\<close>
  makes them: \<^verbatim>\<open>null\<close>, a boolean, a number, a string, an array, or an object with its
  own properties in property order.

  The element never computes with the numbers of a shape: a number is opaque to it, and
  is represented by a name, its decimal rendering (as \<^verbatim>\<open>0.25\<close> or \<^verbatim>\<open>-0.002\<close>) or
  \<^verbatim>\<open>Infinity\<close>, \<^verbatim>\<open>-Infinity\<close>, \<^verbatim>\<open>NaN\<close>. Strings are strings of 8-bit characters.
\<close>

datatype json =
    JNull
  | JBool bool
  | JNum string
  | JStr string
  | JArr "json list"
  | JObj "(string \<times> json) list"

text \<open>
  \<^verbatim>\<open>ShapeData\<close> (declared in \<^verbatim>\<open>./types\<close>): an object with a string \<^verbatim>\<open>id\<close> and further
  own properties (the geometry and the property bag). \<open>props\<close> lists the own properties
  of the object in property order, the property \<^verbatim>\<open>id\<close> among them, and \<open>shape_id\<close> is
  what \<^verbatim>\<open>s.id\<close> reads, the string of that property. JavaScript sets compare objects by
  identity, so every object carries its identity \<open>ref\<close>; two records with equal contents
  and different \<open>ref\<close> are different objects.
\<close>

record ShapeData =
  ref :: nat
  shape_id :: string
  props :: "(string \<times> json) list"

datatype InteractiveMode = Edit | Create | NoInteraction

text \<open>The custom events the element dispatches, with their \<^verbatim>\<open>detail\<close>.\<close>

datatype CustomEvent =
    EvCreate ShapeData
  | EvUpdate "string list"
  | EvDelete "string list"
  | EvSelection "string list"
  | EvMode InteractiveMode

record KeyboardEvent =
  key :: string
  shiftKey :: bool

text \<open>
  The state of a \<^verbatim>\<open>Canvas2d\<close>: its \<^verbatim>\<open>mode\<close>, the observable set \<^verbatim>\<open>_shapes\<close>, the
  observable set \<^verbatim>\<open>shManager.targetShapes\<close>, the events dispatched so far (oldest
  first) and the number of objects created so far (the next fresh identity). Both sets
  are lists without repetition, in insertion order, which is the iteration order of a
  JavaScript set.
\<close>

record Canvas2d =
  mode :: InteractiveMode
  shapes :: "ShapeData list"
  targetShapes :: "ShapeData list"
  dispatched :: "CustomEvent list"
  allocated :: nat

section \<open>The observable container\<close>

text \<open>
  The class \<^verbatim>\<open>ObservableSet\<close> and the functions \<^verbatim>\<open>observe\<close> and \<^verbatim>\<open>observable\<close> come from
  \<^verbatim>\<open>@pixano/core\<close>, and the selection set belongs to the \<^verbatim>\<open>ShapesManager\<close> of
  \<^verbatim>\<open>./shapes-manager\<close>; none of them is among the source files. What the element needs
  of them is modelled from sections 3 to 6 of the specification, one definition at a
  time.
\<close>

text \<open>
  Modelled from the spec: \<^verbatim>\<open>ObservableSet.has\<close> is missing. Section 4.1 lists
  \<^verbatim>\<open>has(item)\<close> in the contract of the container: the membership of the item.
\<close>

definition os_has :: "ShapeData \<Rightarrow> ShapeData list \<Rightarrow> bool" where
  "os_has x xs = (x \<in> set xs)"

text \<open>
  Modelled from the spec: \<^verbatim>\<open>ObservableSet.add\<close> is missing. Section 4.1: the container
  holds uniquely-identified items; adding an item whose id already exists overwrites
  (overwrite with identity preserved, last write wins): the entry with that id keeps
  its place and holds the new item. An item with a new id comes last.
\<close>

definition os_add :: "ShapeData \<Rightarrow> ShapeData list \<Rightarrow> ShapeData list" where
  "os_add x xs =
     (if shape_id x \<in> shape_id ` set xs
      then map (\<lambda>y. if shape_id y = shape_id x then x else y) xs
      else xs @ [x])"

text \<open>
  Modelled from the spec: \<^verbatim>\<open>ObservableSet.delete\<close> is missing. Section 4.1 lists
  \<^verbatim>\<open>delete(item)\<close>: the item leaves the container.
\<close>

definition os_delete :: "ShapeData \<Rightarrow> ShapeData list \<Rightarrow> ShapeData list" where
  "os_delete x xs = filter (\<lambda>y. y \<noteq> x) xs"

text \<open>
  Modelled from the spec: \<^verbatim>\<open>ObservableSet.set\<close> is missing. Section 4.1: \<^verbatim>\<open>set(items[])\<close>
  is an atomic full replace; the new content is what adding the items one after the
  other to an empty container gives.
\<close>

definition os_set :: "ShapeData list \<Rightarrow> ShapeData list" where
  "os_set items = foldl (\<lambda>acc x. os_add x acc) [] items"

section \<open>Notifications\<close>

text \<open>\<^verbatim>\<open>notifyUpdate\<close>, \<^verbatim>\<open>notifyMode\<close>, \<^verbatim>\<open>notifySelection\<close>, \<^verbatim>\<open>notifyCreate\<close>, \<^verbatim>\<open>notifyDelete\<close>.\<close>

definition dispatchEvent :: "CustomEvent \<Rightarrow> Canvas2d \<Rightarrow> Canvas2d" where
  "dispatchEvent e st = st\<lparr>dispatched := dispatched st @ [e]\<rparr>"

definition notifyUpdate :: "string list \<Rightarrow> Canvas2d \<Rightarrow> Canvas2d" where
  "notifyUpdate ids st = dispatchEvent (EvUpdate ids) st"

definition notifyMode :: "InteractiveMode \<Rightarrow> Canvas2d \<Rightarrow> Canvas2d" where
  "notifyMode m st = dispatchEvent (EvMode m) (st\<lparr>mode := m\<rparr>)"

definition notifySelection :: "string list \<Rightarrow> Canvas2d \<Rightarrow> Canvas2d" where
  "notifySelection ids st = dispatchEvent (EvSelection ids) st"

definition notifyCreate :: "ShapeData \<Rightarrow> Canvas2d \<Rightarrow> Canvas2d" where
  "notifyCreate obj st = dispatchEvent (EvCreate obj) st"

definition notifyDelete :: "string list \<Rightarrow> Canvas2d \<Rightarrow> Canvas2d" where
  "notifyDelete ids st = dispatchEvent (EvDelete ids) st"

text \<open>
  \<^verbatim>\<open>initShapeSetObserver\<close>, first observer: on a change of \<^verbatim>\<open>targetShapes\<close> whose kind
  is not \<^verbatim>\<open>'set'\<close>, the ids of the selected shapes are notified.
\<close>

definition targetShapes_observer :: "string \<Rightarrow> Canvas2d \<Rightarrow> Canvas2d" where
  "targetShapes_observer prop st =
     (if prop \<noteq> ''set'' then notifySelection (map shape_id (targetShapes st)) st else st)"

text \<open>
  \<^verbatim>\<open>initShapeSetObserver\<close>, second observer: on \<^verbatim>\<open>'add'\<close> with a shape the shape is
  notified as created, on \<^verbatim>\<open>'delete'\<close> with a shape its id is notified as deleted, in a
  list of one id.
\<close>

definition shapes_observer :: "string \<Rightarrow> ShapeData option \<Rightarrow> Canvas2d \<Rightarrow> Canvas2d" where
  "shapes_observer event shape st =
     (let st1 = (case shape of
                   Some s \<Rightarrow> if event = ''add'' then notifyCreate s st else st
                 | None \<Rightarrow> st)
      in (case shape of
            Some s \<Rightarrow> if event = ''delete'' then notifyDelete [shape_id s] st1 else st1
          | None \<Rightarrow> st1))"

text \<open>
  Modelled from the spec: the notification of \<^verbatim>\<open>targetShapes.set\<close> is missing. Section
  4.2: \<^verbatim>\<open>set(items[])\<close> replaces the entire selection atomically and emits one \<^verbatim>\<open>"set"\<close>
  event. The only observer of the selection set in the source files is
  \<open>targetShapes_observer\<close>.
\<close>

definition targetShapes_set :: "ShapeData list \<Rightarrow> Canvas2d \<Rightarrow> Canvas2d" where
  "targetShapes_set items st = targetShapes_observer ''set'' (st\<lparr>targetShapes := os_set items\<rparr>)"

text \<open>
  Modelled from the spec: the notification of \<^verbatim>\<open>targetShapes.clear\<close> is missing. Section
  4.2: \<^verbatim>\<open>clear\<close> emits \<^verbatim>\<open>"set"\<close> with the empty selection.
\<close>

definition targetShapes_clear :: "Canvas2d \<Rightarrow> Canvas2d" where
  "targetShapes_clear st = targetShapes_observer ''set'' (st\<lparr>targetShapes := []\<rparr>)"

text \<open>
  Modelled from the spec: the notification of \<^verbatim>\<open>targetShapes.add\<close> is missing. Section
  4.1: \<^verbatim>\<open>add\<close> emits exactly one event carrying the affected item and the event kind
  \<^verbatim>\<open>add\<close>. This is how the shapes manager adds one shape to the selection.
\<close>

definition targetShapes_add :: "ShapeData \<Rightarrow> Canvas2d \<Rightarrow> Canvas2d" where
  "targetShapes_add x st =
     targetShapes_observer ''add'' (st\<lparr>targetShapes := os_add x (targetShapes st)\<rparr>)"

text \<open>
  Modelled from the spec: the notification of \<^verbatim>\<open>targetShapes.delete\<close> is missing. Section
  4.1: \<^verbatim>\<open>delete\<close> emits exactly one event carrying the affected item and the event kind
  \<^verbatim>\<open>delete\<close>. This is how the shapes manager removes one shape from the selection.
\<close>

definition targetShapes_delete :: "ShapeData \<Rightarrow> Canvas2d \<Rightarrow> Canvas2d" where
  "targetShapes_delete x st =
     targetShapes_observer ''delete'' (st\<lparr>targetShapes := os_delete x (targetShapes st)\<rparr>)"

text \<open>
  Modelled from the spec: the shapes manager's own observer of the shape collection is
  missing (the manager is constructed with \<^verbatim>\<open>_shapes\<close> before the element subscribes its
  observers). Section 3: removing a shape from the collection removes it from the
  selection; section 4.2: when the collection deletes an item, the engine removes it
  from the selection synchronously, before any external listener observes the deletion.
  So after a structural change of the collection the selection keeps the selected shapes
  that are still in the collection, and this replacement of the selection is a \<^verbatim>\<open>set\<close>.
\<close>

definition shManager_observer :: "string \<Rightarrow> ShapeData option \<Rightarrow> Canvas2d \<Rightarrow> Canvas2d" where
  "shManager_observer event shape st =
     targetShapes_set (filter (\<lambda>s. os_has s (shapes st)) (targetShapes st)) st"

text \<open>
  Modelled from the spec: \<^verbatim>\<open>observe\<close> and the dispatch of the container are missing.
  Section 5: observers are invoked in subscription order, and all of them before the
  triggering call returns. The manager subscribed first, the element second.
\<close>

definition shapes_notify :: "string \<Rightarrow> ShapeData option \<Rightarrow> Canvas2d \<Rightarrow> Canvas2d" where
  "shapes_notify event shape st = shapes_observer event shape (shManager_observer event shape st)"

text \<open>
  Modelled from the spec: the notification of \<^verbatim>\<open>_shapes.add\<close> is missing. Section 4.1:
  \<^verbatim>\<open>add\<close> emits exactly one event carrying the affected item and the event kind \<^verbatim>\<open>add\<close>.
\<close>

definition shapes_add :: "ShapeData \<Rightarrow> Canvas2d \<Rightarrow> Canvas2d" where
  "shapes_add x st = shapes_notify ''add'' (Some x) (st\<lparr>shapes := os_add x (shapes st)\<rparr>)"

text \<open>
  Modelled from the spec: the notification of \<^verbatim>\<open>_shapes.delete\<close> is missing. Section 4.1:
  \<^verbatim>\<open>delete\<close> emits exactly one event carrying the affected item and the event kind
  \<^verbatim>\<open>delete\<close>.
\<close>

definition shapes_delete :: "ShapeData \<Rightarrow> Canvas2d \<Rightarrow> Canvas2d" where
  "shapes_delete x st =
     shapes_notify ''delete'' (Some x) (st\<lparr>shapes := os_delete x (shapes st)\<rparr>)"

text \<open>
  Modelled from the spec: the notification of \<^verbatim>\<open>_shapes.set\<close> is missing. Section 4.1:
  \<^verbatim>\<open>set\<close> is observable as a single event, distinct from the events of \<^verbatim>\<open>add\<close> and
  \<^verbatim>\<open>delete\<close>; it carries no item.
\<close>

definition shapes_set :: "ShapeData list \<Rightarrow> Canvas2d \<Rightarrow> Canvas2d" where
  "shapes_set items st = shapes_notify ''set'' None (st\<lparr>shapes := os_set items\<rparr>)"

section \<open>The element\<close>

text \<open>The constructor: mode \<^verbatim>\<open>"edit"\<close>, no shape, no selection.\<close>

definition Canvas2d_init :: Canvas2d where
  "Canvas2d_init =
     \<lparr>mode = Edit, shapes = [], targetShapes = [], dispatched = [], allocated = 0\<rparr>"

text \<open>
  Modelled from the spec: \<^verbatim>\<open>observable\<close> is missing. Section 6: each element of the
  collection is independently observable for in-place edits. The observed object made
  for a given object is a new object with the same properties: it gets the next fresh
  identity.
\<close>

definition observable :: "nat \<Rightarrow> ShapeData \<Rightarrow> ShapeData" where
  "observable n v = v\<lparr>ref := n\<rparr>"

text \<open>The getter and the setter of \<^verbatim>\<open>selectedShapeIds\<close>, and the getter \<^verbatim>\<open>selectedShapes\<close>.\<close>

definition get_selectedShapeIds :: "Canvas2d \<Rightarrow> string list" where
  "get_selectedShapeIds st = map shape_id (targetShapes st)"

definition set_selectedShapeIds :: "string list \<Rightarrow> Canvas2d \<Rightarrow> Canvas2d" where
  "set_selectedShapeIds ids st =
     targetShapes_set (filter (\<lambda>s. shape_id s \<in> set ids) (shapes st)) st"

definition get_selectedShapes :: "Canvas2d \<Rightarrow> ShapeData list" where
  "get_selectedShapes st = targetShapes st"

text \<open>
  The setter of \<^verbatim>\<open>shapes\<close>: every given object is made observable, and the collection
  is replaced by these objects.
\<close>

definition set_shapes :: "ShapeData list \<Rightarrow> Canvas2d \<Rightarrow> Canvas2d" where
  "set_shapes val st =
     shapes_set (map2 observable [allocated st ..< allocated st + length val] val)
       (st\<lparr>allocated := allocated st + length val\<rparr>)"

subsection \<open>Tabulation\<close>

text \<open>
  \<^verbatim>\<open>Array.prototype.findIndex\<close>: the index of the first element that satisfies the
  predicate, \<open>-1\<close> when there is none.
\<close>

fun findIndex_from :: "int \<Rightarrow> ('a \<Rightarrow> bool) \<Rightarrow> 'a list \<Rightarrow> int" where
  "findIndex_from i p [] = -1"
| "findIndex_from i p (x # xs) = (if p x then i else findIndex_from (i + 1) p xs)"

definition findIndex :: "('a \<Rightarrow> bool) \<Rightarrow> 'a list \<Rightarrow> int" where
  "findIndex p xs = findIndex_from 0 p xs"

text \<open>
  \<^verbatim>\<open>i || 0\<close> on an integer: the right operand is taken when the left one is falsy, and
  the only falsy integer is zero.
\<close>

definition or_zero :: "int \<Rightarrow> int" where
  "or_zero i = (if i = 0 then 0 else i)"

text \<open>
  \<^verbatim>\<open>a % n\<close> on integers: \<^verbatim>\<open>NaN\<close> (here \<open>None\<close>) when \<open>n\<close> is zero, otherwise the
  remainder of the truncating division, which has the sign of \<open>a\<close>.
\<close>

definition js_rem :: "int \<Rightarrow> int \<Rightarrow> int option" where
  "js_rem a n = (if n = 0 then None else Some (sgn a * (\<bar>a\<bar> mod \<bar>n\<bar>)))"

text \<open>
  \<^verbatim>\<open>shapes[idx]\<close>: \<^verbatim>\<open>undefined\<close> (here \<open>None\<close>) when the index is \<^verbatim>\<open>NaN\<close> or not an index
  of the array.
\<close>

definition js_index :: "'a list \<Rightarrow> int option \<Rightarrow> 'a option" where
  "js_index xs idx =
     (case idx of
        None \<Rightarrow> None
      | Some k \<Rightarrow> if 0 \<le> k \<and> k < int (length xs) then Some (xs ! nat k) else None)"

definition onTabulation :: "KeyboardEvent \<Rightarrow> Canvas2d \<Rightarrow> Canvas2d" where
  "onTabulation event st =
     (if mode st = Create then st
      else
        let shs = shapes st;
            currIdx = or_zero (findIndex (\<lambda>s. os_has s (targetShapes st)) shs);
            n = int (length shs);
            nextIdx = (if shiftKey event then js_rem (currIdx + 1 + n) n
                       else js_rem (currIdx - 1 + n) n)
        in (case js_index shs nextIdx of
              Some nextShape \<Rightarrow> targetShapes_set [nextShape] st
            | None \<Rightarrow> st))"

subsection \<open>Keyboard\<close>

text \<open>
  \<^verbatim>\<open>keyBinding\<close>. It first calls the handler of the base class \<^verbatim>\<open>Canvas\<close>
  (\<^verbatim>\<open>./pxn-canvas\<close>, the view; not among the source files), which is taken to leave the
  shapes, the selection and the dispatched events as they are.

  The \<^verbatim>\<open>Delete\<close> case deletes every selected shape from the collection, one call of
  \<^verbatim>\<open>delete\<close> for each shape selected when the key is pressed, then clears the selection.
  (While \<^verbatim>\<open>forEach\<close> runs, only the shape just deleted leaves the selection; \<^verbatim>\<open>forEach\<close>
  of a JavaScript set still visits every other element once.)
\<close>

definition keyBinding :: "KeyboardEvent \<Rightarrow> Canvas2d \<Rightarrow> Canvas2d" where
  "keyBinding event st =
     (if key event = ''Tab'' then onTabulation event st
      else if key event = ''Delete''
        then targetShapes_clear (foldl (\<lambda>s x. shapes_delete x s) st (targetShapes st))
      else if key event = ''Escape'' then targetShapes_clear st
      else st)"

text \<open>The events dispatched between a state and a later one.\<close>

definition emitted :: "Canvas2d \<Rightarrow> Canvas2d \<Rightarrow> CustomEvent list" where
  "emitted st st' = drop (length (dispatched st)) (dispatched st')"

fun is_delete :: "CustomEvent \<Rightarrow> bool" where
  "is_delete (EvDelete ids) = True"
| "is_delete e = False"

section \<open>Clipboard\<close>

text \<open>
  \<^verbatim>\<open>JSON.stringify\<close>, \<^verbatim>\<open>JSON.parse\<close> and \<^verbatim>\<open>Math.random\<close> belong to the language, not to the
  element. They are parameters of the functions below: \<open>JSON_stringify\<close> gives the text
  of a value, \<open>JSON_parse\<close> gives the value of a text or the \<^verbatim>\<open>SyntaxError\<close> that it throws,
  and \<open>random\<close> gives the random numbers that are drawn.
\<close>

datatype error = SyntaxError

text \<open>A shape as a value: the object with its own properties, in property order.\<close>

definition shape_json :: "ShapeData \<Rightarrow> json" where
  "shape_json s = JObj (props s)"

text \<open>
  \<^verbatim>\<open>onCopy\<close>: the text that \<^verbatim>\<open>JSON.stringify\<close> gives for the array of the selected shapes,
  nothing when none is selected.
\<close>

definition onCopy :: "(json \<Rightarrow> string) \<Rightarrow> Canvas2d \<Rightarrow> string option" where
  "onCopy JSON_stringify st =
     (if length (targetShapes st) \<noteq> 0
      then Some (JSON_stringify (JArr (map shape_json (targetShapes st))))
      else None)"

text \<open>The decimal digits of an array index, as a property key.\<close>

fun show_nat :: "nat \<Rightarrow> string" where
  "show_nat n =
     (if n < 10 then [''0123456789'' ! n]
      else show_nat (n div 10) @ [''0123456789'' ! (n mod 10)])"

text \<open>
  The spread \<^verbatim>\<open>{...v}\<close> of a parsed value: the own properties of an object, the indexed
  elements of an array, the indexed characters of a string, nothing otherwise.
\<close>

definition spread :: "json \<Rightarrow> (string \<times> json) list" where
  "spread v =
     (case v of
        JObj ms \<Rightarrow> ms
      | JArr vs \<Rightarrow> zip (map show_nat [0 ..< length vs]) vs
      | JStr s \<Rightarrow> zip (map show_nat [0 ..< length s]) (map (\<lambda>c. JStr [c]) s)
      | _ \<Rightarrow> [])"

text \<open>
  A property \<^verbatim>\<open>k: x\<close> written after a spread in an object literal: a property that is
  there already keeps its place and takes the new value, a new property comes last.
\<close>

fun set_prop :: "string \<Rightarrow> json \<Rightarrow> (string \<times> json) list \<Rightarrow> (string \<times> json) list" where
  "set_prop k x [] = [(k, x)]"
| "set_prop k x (p # ps) = (if fst p = k then (k, x) # ps else p # set_prop k x ps)"

text \<open>
  \<^verbatim>\<open>Math.random().toString(36).substring(7)\<close>: the random number is given by its
  rendering in base 36 (\<^verbatim>\<open>"0."\<close> and the digits of the fraction); \<^verbatim>\<open>substring(7)\<close> drops
  the first seven characters.
\<close>

definition substring7 :: "string \<Rightarrow> string" where
  "substring7 s = drop 7 s"

text \<open>
  One turn of the loop of \<^verbatim>\<open>onPaste\<close>, for the element \<open>v\<close> at index \<open>i\<close>: the new object
  \<^verbatim>\<open>{...v, id: ...}\<close> has the properties of \<open>v\<close> and the drawn \<^verbatim>\<open>id\<close>; it is made observable
  and added to the collection. \<open>random i\<close> is the rendering of the random number drawn
  in turn \<open>i\<close>.
\<close>

definition paste_shape :: "(nat \<Rightarrow> string) \<Rightarrow> Canvas2d \<Rightarrow> nat \<times> json \<Rightarrow> Canvas2d" where
  "paste_shape random st iv =
     (let shape = observable (allocated st)
                    \<lparr>ref = allocated st,
                     shape_id = substring7 (random (fst iv)),
                     props = set_prop ''id'' (JStr (substring7 (random (fst iv))))
                               (spread (snd iv))\<rparr>
      in shapes_add shape (st\<lparr>allocated := Suc (allocated st)\<rparr>))"

text \<open>
  \<^verbatim>\<open>onPaste\<close>: the exception of \<^verbatim>\<open>JSON.parse\<close> reaches the caller; a parsed value that is
  not an array is skipped by the test \<^verbatim>\<open>value instanceof Array\<close>.
\<close>

definition onPaste ::
  "(nat \<Rightarrow> string) \<Rightarrow> (string \<Rightarrow> error + json) \<Rightarrow> string \<Rightarrow> Canvas2d \<Rightarrow> error + Canvas2d" where
  "onPaste random JSON_parse text st =
     (case JSON_parse text of
        Inl e \<Rightarrow> Inl e
      | Inr val \<Rightarrow>
          Inr (case val of
                 JArr vs \<Rightarrow> foldl (paste_shape random) st (zip [0 ..< length vs] vs)
               | _ \<Rightarrow> st))"

section \<open>Runs of the element\<close>

text \<open>
  What the host and the user do to the element: add a shape to the collection or remove
  one from it (through the set that the getter \<^verbatim>\<open>shapes\<close> returns), paste a text (with
  the random numbers drawn meanwhile and the \<^verbatim>\<open>JSON.parse\<close> of the language), press a
  key, assign \<^verbatim>\<open>selectedShapeIds\<close>, assign \<^verbatim>\<open>shapes\<close>. A paste that throws leaves the
  element as it was.
\<close>

datatype operation =
    Add ShapeData
  | Remove ShapeData
  | Paste "nat \<Rightarrow> string" "string \<Rightarrow> error + json" string
  | Key KeyboardEvent
  | SetSelectedShapeIds "string list"
  | SetShapes "ShapeData list"

fun apply_op :: "Canvas2d \<Rightarrow> operation \<Rightarrow> Canvas2d" where
  "apply_op st (Add v) =
     shapes_add (observable (allocated st) v) (st\<lparr>allocated := Suc (allocated st)\<rparr>)"
| "apply_op st (Remove s) = shapes_delete s st"
| "apply_op st (Paste random JSON_parse text) =
     (case onPaste random JSON_parse text st of Inl e \<Rightarrow> st | Inr st' \<Rightarrow> st')"
| "apply_op st (Key event) = keyBinding event st"
| "apply_op st (SetSelectedShapeIds ids) = set_selectedShapeIds ids st"
| "apply_op st (SetShapes val) = set_shapes val st"

definition run :: "operation list \<Rightarrow> Canvas2d" where
  "run ops = foldl apply_op Canvas2d_init ops"

section \<open>Invariants and examples\<close>

text \<open>The ids of the shapes of the collection are pairwise different.\<close>

definition unique_ids :: "Canvas2d \<Rightarrow> bool" where
  "unique_ids st = distinct (map shape_id (shapes st))"

text \<open>Every selected shape is a shape of the collection.\<close>

definition selection_in_collection :: "Canvas2d \<Rightarrow> bool" where
  "selection_in_collection st = (set (targetShapes st) \<subseteq> set (shapes st))"

text \<open>The events \<^verbatim>\<open>create\<close> among dispatched events.\<close>

fun is_create :: "CustomEvent \<Rightarrow> bool" where
  "is_create (EvCreate s) = True"
| "is_create e = False"

text \<open>
  The shapes that the loop of \<^verbatim>\<open>onPaste\<close> makes from the elements of the pasted array,
  the first of them with the identity \<open>n\<close>.
\<close>

fun pasted_from :: "(nat \<Rightarrow> string) \<Rightarrow> nat \<Rightarrow> (nat \<times> json) list \<Rightarrow> ShapeData list" where
  "pasted_from random n [] = []"
| "pasted_from random n (iv # ivs) =
     \<lparr>ref = n, shape_id = substring7 (random (fst iv)),
      props = set_prop ''id'' (JStr (substring7 (random (fst iv)))) (spread (snd iv))\<rparr>
     # pasted_from random (Suc n) ivs"

definition pasted_shapes :: "(nat \<Rightarrow> string) \<Rightarrow> nat \<Rightarrow> json list \<Rightarrow> ShapeData list" where
  "pasted_shapes random n vs = pasted_from random n (zip [0 ..< length vs] vs)"

text \<open>The properties of an object other than its \<^verbatim>\<open>id\<close>: the geometry and the property bag.\<close>

definition other_props :: "ShapeData \<Rightarrow> (string \<times> json) list" where
  "other_props s = filter (\<lambda>kv. fst kv \<noteq> ''id'') (props s)"

text \<open>The test \<^verbatim>\<open>value instanceof Array\<close> on a parsed value.\<close>

definition is_array :: "json \<Rightarrow> bool" where
  "is_array v = (case v of JArr vs \<Rightarrow> True | _ \<Rightarrow> False)"

text \<open>A plain object with an id and no other property, as the host would pass it.\<close>

definition plain :: "string \<Rightarrow> ShapeData" where
  "plain i = \<lparr>ref = 0, shape_id = i, props = [(''id'', JStr i)]\<rparr>"

definition Tab_key :: KeyboardEvent where
  "Tab_key = \<lparr>key = ''Tab'', shiftKey = False\<rparr>"

definition Shift_Tab_key :: KeyboardEvent where
  "Shift_Tab_key = \<lparr>key = ''Tab'', shiftKey = True\<rparr>"

definition Delete_key :: KeyboardEvent where
  "Delete_key = \<lparr>key = ''Delete'', shiftKey = False\<rparr>"

text \<open>Example states: an element given five shapes, three shapes of which two are
  selected, and one shape.\<close>

definition five_shapes :: Canvas2d where
  "five_shapes = run [SetShapes [plain ''a'', plain ''b'', plain ''c'', plain ''d'', plain ''e'']]"

definition two_selected :: Canvas2d where
  "two_selected =
     run [SetShapes [plain ''a'', plain ''b'', plain ''c''], SetSelectedShapeIds [''a'', ''c'']]"

definition one_shape :: Canvas2d where
  "one_shape = run [SetShapes [plain ''a'']]"

text \<open>
  Example shapes: a rectangle with a geometry and a category, and a rectangle one of
  whose vertices is the number \<^verbatim>\<open>Infinity\<close>; and the states where each is the only shape
  and selected.
\<close>

definition car_shape :: ShapeData where
  "car_shape =
     \<lparr>ref = 0, shape_id = ''a'',
      props = [(''id'', JStr ''a''),
               (''geometry'',
                JObj [(''type'', JStr ''rectangle''),
                      (''vertices'', JArr [JNum ''0.25'', JNum ''0.5'', JNum ''1'', JNum ''-0.002''])]),
               (''category'', JStr ''car'')]\<rparr>"

definition unbounded_shape :: ShapeData where
  "unbounded_shape =
     \<lparr>ref = 0, shape_id = ''a'',
      props = [(''id'', JStr ''a''),
               (''geometry'',
                JObj [(''type'', JStr ''rectangle''),
                      (''vertices'', JArr [JNum ''0'', JNum ''0'', JNum ''Infinity'', JNum ''1''])])]\<rparr>"

definition car_selected :: Canvas2d where
  "car_selected = run [SetShapes [car_shape], SetSelectedShapeIds [''a'']]"

definition unbounded_selected :: Canvas2d where
  "unbounded_selected = run [SetShapes [unbounded_shape], SetSelectedShapeIds [''a'']]"

text \<open>
  The texts that \<^verbatim>\<open>JSON.stringify\<close> gives for the array of the first rectangle and for
  the array of the second (a number that is not finite is printed as \<^verbatim>\<open>null\<close>).
\<close>

definition car_text :: string where
  "car_text =
     ''[{\"id\":\"a\",\"geometry\":{\"type\":\"rectangle\",\"vertices\":[0.25,0.5,1,-0.002]},\"category\":\"car\"}]''"

definition unbounded_text :: string where
  "unbounded_text =
     ''[{\"id\":\"a\",\"geometry\":{\"type\":\"rectangle\",\"vertices\":[0,0,null,1]}}]''"

text \<open>
  \<^verbatim>\<open>JSON.stringify\<close> on the values of the examples, and \<^verbatim>\<open>JSON.parse\<close> on the texts of the
  examples: these two tables stand for the functions of the language where an example
  needs them. The text \<^verbatim>\<open>[1,\<close> is not JSON. No example uses another value or text.
\<close>

definition stringify_table :: "json \<Rightarrow> string" where
  "stringify_table v =
     (if v = JArr [shape_json car_shape] then car_text
      else if v = JArr [shape_json unbounded_shape] then unbounded_text
      else [])"

definition parse_table :: "string \<Rightarrow> error + json" where
  "parse_table text =
     (if text = ''[{}]'' then Inr (JArr [JObj []])
      else if text = ''[{},[7]]'' then Inr (JArr [JObj [], JArr [JNum ''7'']])
      else if text = ''{}'' then Inr (JObj [])
      else if text = ''42'' then Inr (JNum ''42'')
      else if text = car_text then Inr (JArr [shape_json car_shape])
      else if text = unbounded_text
        then Inr (JArr [JObj [(''id'', JStr ''a''),
                              (''geometry'',
                               JObj [(''type'', JStr ''rectangle''),
                                     (''vertices'', JArr [JNum ''0'', JNum ''0'', JNull, JNum ''1''])])]])
      else Inl SyntaxError)"

text \<open>
  The random numbers of the examples: 0.5 at every draw, whose rendering \<^verbatim>\<open>"0.i"\<close> has
  fewer than seven characters and leaves the empty id; and a number whose rendering
  leaves six characters, followed by 0.5.
\<close>

definition half :: "nat \<Rightarrow> string" where
  "half i = ''0.i''"

definition long_then_half :: "nat \<Rightarrow> string" where
  "long_then_half i = (if i = 0 then ''0.4fzyo82mvyr'' else ''0.i'')"

text \<open>An element whose only shape was pasted with the random number 0.5.\<close>

definition blank_id :: Canvas2d where
  "blank_id = run [Paste half parse_table ''[{}]'']"

section \<open>Properties of the container\<close>

lemma os_add_subset: "set (os_add x xs) \<subseteq> insert x (set xs)"
  by (auto simp: os_add_def)

lemma os_add_member: "x \<in> set (os_add x xs)"
  by (auto simp: os_add_def)

lemma os_add_ids: "shape_id ` set (os_add x xs) = insert (shape_id x) (shape_id ` set xs)"
  by (auto simp: os_add_def image_iff)

lemma map_id_os_add_old:
  "shape_id x \<in> shape_id ` set xs \<Longrightarrow> map shape_id (os_add x xs) = map shape_id xs"
  by (induction xs) (auto simp: os_add_def)

lemma os_add_distinct_ids:
  "distinct (map shape_id xs) \<Longrightarrow> distinct (map shape_id (os_add x xs))"
proof (cases "shape_id x \<in> shape_id ` set xs")
  case True
  assume "distinct (map shape_id xs)"
  with map_id_os_add_old [OF True] show ?thesis by simp
next
  case False
  assume "distinct (map shape_id xs)"
  with False show ?thesis by (simp add: os_add_def)
qed

lemma foldl_os_add_subset: "set (foldl (\<lambda>acc x. os_add x acc) acc xs) \<subseteq> set acc \<union> set xs"
proof (induction xs arbitrary: acc)
  case Nil
  show ?case by simp
next
  case (Cons x xs)
  from Cons [of "os_add x acc"] os_add_subset [of x acc] show ?case by auto
qed

lemma os_set_subset: "set (os_set xs) \<subseteq> set xs"
  using foldl_os_add_subset [of "[]" xs] by (simp add: os_set_def)

lemma foldl_os_add_distinct_ids:
  "distinct (map shape_id acc) \<Longrightarrow> distinct (map shape_id (foldl (\<lambda>acc x. os_add x acc) acc xs))"
  by (induction xs arbitrary: acc) (simp_all add: os_add_distinct_ids)

lemma os_set_distinct_ids: "distinct (map shape_id (os_set xs))"
  by (simp add: os_set_def foldl_os_add_distinct_ids)

lemma foldl_os_add_fresh:
  "distinct (map shape_id (acc @ xs)) \<Longrightarrow> foldl (\<lambda>acc x. os_add x acc) acc xs = acc @ xs"
proof (induction xs arbitrary: acc)
  case Nil
  show ?case by simp
next
  case (Cons x xs)
  from Cons.prems have new: "shape_id x \<notin> shape_id ` set acc" by auto
  from Cons.prems have "distinct (map shape_id ((acc @ [x]) @ xs))" by simp
  from Cons.IH [OF this] new show ?case by (simp add: os_add_def)
qed

lemma os_set_unique: "distinct (map shape_id xs) \<Longrightarrow> os_set xs = xs"
  using foldl_os_add_fresh [of "[]" xs] by (simp add: os_set_def)

lemma os_set_single: "os_set [x] = [x]"
  by (simp add: os_set_def os_add_def)

lemma os_delete_subset: "set (os_delete x xs) \<subseteq> set xs"
  by (auto simp: os_delete_def)

lemma os_delete_distinct_ids:
  "distinct (map shape_id xs) \<Longrightarrow> distinct (map shape_id (os_delete x xs))"
  by (simp add: os_delete_def distinct_map_filter)

lemma targetShapes_set_eq: "targetShapes_set xs st = st\<lparr>targetShapes := os_set xs\<rparr>"
  by (simp add: targetShapes_set_def targetShapes_observer_def)

lemma targetShapes_clear_eq: "targetShapes_clear st = st\<lparr>targetShapes := []\<rparr>"
  by (simp add: targetShapes_clear_def targetShapes_observer_def)

lemma shManager_observer_eq:
  "shManager_observer event shape st =
     st\<lparr>targetShapes := os_set (filter (\<lambda>s. s \<in> set (shapes st)) (targetShapes st))\<rparr>"
  by (simp add: shManager_observer_def targetShapes_set_eq os_has_def)

lemma shapes_add_eq:
  "shapes_add x st =
     st\<lparr>shapes := os_add x (shapes st),
        targetShapes := os_set (filter (\<lambda>s. s \<in> set (os_add x (shapes st))) (targetShapes st)),
        dispatched := dispatched st @ [EvCreate x]\<rparr>"
  by (simp add: shapes_add_def shapes_notify_def shapes_observer_def shManager_observer_eq
      notifyCreate_def dispatchEvent_def)

lemma shapes_delete_eq:
  "shapes_delete x st =
     st\<lparr>shapes := os_delete x (shapes st),
        targetShapes := os_set (filter (\<lambda>s. s \<in> set (os_delete x (shapes st))) (targetShapes st)),
        dispatched := dispatched st @ [EvDelete [shape_id x]]\<rparr>"
  by (simp add: shapes_delete_def shapes_notify_def shapes_observer_def shManager_observer_eq
      notifyDelete_def dispatchEvent_def)

lemma shapes_set_eq:
  "shapes_set xs st =
     st\<lparr>shapes := os_set xs,
        targetShapes := os_set (filter (\<lambda>s. s \<in> set (os_set xs)) (targetShapes st))\<rparr>"
  by (simp add: shapes_set_def shapes_notify_def shapes_observer_def shManager_observer_eq)

section \<open>Properties of tabulation\<close>

lemma findIndex_from_none: "\<forall>x\<in>set xs. \<not> p x \<Longrightarrow> findIndex_from i p xs = -1"
  by (induction xs arbitrary: i) simp_all

lemma findIndex_from_first:
  "k < length xs \<Longrightarrow> p (xs ! k) \<Longrightarrow> \<forall>j<k. \<not> p (xs ! j) \<Longrightarrow> findIndex_from i p xs = i + int k"
proof (induction xs arbitrary: i k)
  case Nil
  then show ?case by simp
next
  case (Cons x xs)
  show ?case
  proof (cases k)
    case 0
    with Cons.prems show ?thesis by simp
  next
    case (Suc m)
    from Cons.prems Suc have "\<not> p x" by auto
    moreover from Cons.prems Suc have "m < length xs" "p (xs ! m)" "\<forall>j<m. \<not> p (xs ! j)" by auto
    from Cons.IH [OF this, of "i + 1"] have "findIndex_from (i + 1) p xs = i + 1 + int m" .
    ultimately show ?thesis using Suc by simp
  qed
qed

lemma findIndex_single:
  assumes "distinct xs" "k < length xs"
  shows "findIndex (\<lambda>s. os_has s [xs ! k]) xs = int k"
proof -
  from assms have "\<forall>j<k. xs ! j \<noteq> xs ! k" by (auto simp: nth_eq_iff_index_eq)
  with assms findIndex_from_first [of k xs "\<lambda>s. os_has s [xs ! k]" 0]
  show ?thesis by (simp add: findIndex_def os_has_def)
qed

lemma findIndex_empty: "findIndex (\<lambda>s. os_has s []) xs = - 1"
  by (simp add: findIndex_def os_has_def findIndex_from_none)

lemma js_rem_nonneg: "0 \<le> a \<Longrightarrow> 0 < n \<Longrightarrow> js_rem a n = Some (a mod n)"
  by (cases "a = 0") (simp_all add: js_rem_def)

lemma js_index_nat: "j < length xs \<Longrightarrow> js_index xs (Some (int j)) = Some (xs ! j)"
  by (simp add: js_index_def)

lemma js_rem_up: "0 < n \<Longrightarrow> js_rem (int k + 1 + int n) (int n) = Some (int ((k + 1) mod n))"
proof -
  assume n: "0 < n"
  have a: "js_rem (int k + 1 + int n) (int n) = Some ((int k + 1 + int n) mod int n)"
    using n by (intro js_rem_nonneg) simp_all
  have "int k + 1 + int n = int (k + 1) + int n" by simp
  then have b: "(int k + 1 + int n) mod int n = int (k + 1) mod int n"
    by (simp only: mod_add_self2)
  have c: "int (k + 1) mod int n = int ((k + 1) mod n)" by (rule zmod_int [symmetric])
  show ?thesis by (simp only: a b c)
qed

lemma js_rem_down:
  "0 < n \<Longrightarrow> js_rem (int k - 1 + int n) (int n) = Some (int ((k + n - 1) mod n))"
proof -
  assume n: "0 < n"
  then have e: "int k - 1 + int n = int (k + n - 1)" by arith
  have "js_rem (int (k + n - 1)) (int n) = Some (int (k + n - 1) mod int n)"
    using n by (intro js_rem_nonneg) simp_all
  also have "int (k + n - 1) mod int n = int ((k + n - 1) mod n)" by (rule zmod_int [symmetric])
  finally show ?thesis unfolding e .
qed

lemma js_rem_none_up: "0 < n \<Longrightarrow> js_rem (- 1 + 1 + int n) (int n) = Some 0"
  by (simp add: js_rem_def)

lemma js_rem_none_down:
  "0 < n \<Longrightarrow> js_rem (- 1 - 1 + int n) (int n) = Some (int (if n = 1 then 0 else n - 2))"
proof (cases "n = 1")
  case True
  then show ?thesis by (simp add: js_rem_def)
next
  case False
  assume "0 < n"
  with False have two: "2 \<le> n" by arith
  then have e: "- 1 - 1 + int n = int (n - 2)" by arith
  have "js_rem (int (n - 2)) (int n) = Some (int (n - 2) mod int n)"
    using two by (intro js_rem_nonneg) simp_all
  moreover have "int (n - 2) mod int n = int ((n - 2) mod n)" by (rule zmod_int [symmetric])
  moreover have "(n - 2) mod n = n - 2" using two by simp
  ultimately show ?thesis unfolding e using False by simp
qed

lemma tab_step:
  assumes "mode st \<noteq> Create" "distinct (shapes st)" "k < length (shapes st)"
    and "targetShapes st = [shapes st ! k]"
  shows "onTabulation e st =
           st\<lparr>targetShapes := [shapes st ! (if shiftKey e then (k + 1) mod length (shapes st)
                                            else (k + length (shapes st) - 1) mod length (shapes st))]\<rparr>"
proof -
  let ?n = "length (shapes st)"
  from assms have n: "0 < ?n" by auto
  have idx: "or_zero (findIndex (\<lambda>s. os_has s (targetShapes st)) (shapes st)) = int k"
    using assms findIndex_single [of "shapes st" k] by (simp add: or_zero_def)
  have lt: "(k + 1) mod ?n < ?n" "(k + ?n - 1) mod ?n < ?n" using n by simp_all
  show ?thesis
    unfolding onTabulation_def Let_def idx js_rem_up [OF n] js_rem_down [OF n]
    using assms(1) lt by (simp add: js_index_nat targetShapes_set_eq os_set_single)
qed

lemma tab_from_nothing:
  assumes "mode st \<noteq> Create" "shapes st \<noteq> []" "targetShapes st = []"
  shows "onTabulation e st =
           st\<lparr>targetShapes := [shapes st ! (if shiftKey e \<or> length (shapes st) = 1 then 0
                                            else length (shapes st) - 2)]\<rparr>"
proof -
  let ?n = "length (shapes st)"
  from assms have n: "0 < ?n" by auto
  have idx: "or_zero (findIndex (\<lambda>s. os_has s (targetShapes st)) (shapes st)) = - 1"
    using assms by (simp add: or_zero_def findIndex_empty)
  have z: "js_index (shapes st) (Some 0) = Some (shapes st ! 0)"
    using n by (simp add: js_index_def)
  have lt: "(if ?n = 1 then 0 else ?n - 2) < ?n" using n by simp
  show ?thesis
    unfolding onTabulation_def Let_def idx js_rem_none_up [OF n] js_rem_none_down [OF n]
    using assms(1) z js_index_nat [OF lt] by (simp add: targetShapes_set_eq os_set_single)
qed

lemma tab_empty: "shapes st = [] \<Longrightarrow> onTabulation e st = st"
  by (simp add: onTabulation_def Let_def js_rem_def js_index_def)

lemma tab_iterate:
  assumes "mode st \<noteq> Create" "distinct (shapes st)" "k < length (shapes st)"
    and "targetShapes st = [shapes st ! k]"
  shows "(onTabulation Tab_key ^^ m) st =
           st\<lparr>targetShapes := [shapes st ! ((k + m * (length (shapes st) - 1)) mod length (shapes st))]\<rparr>"
proof (induction m)
  case 0
  from assms show ?case by simp
next
  case (Suc m)
  let ?n = "length (shapes st)"
  let ?j = "(k + m * (?n - 1)) mod ?n"
  let ?st = "st\<lparr>targetShapes := [shapes st ! ?j]\<rparr>"
  from assms have n: "0 < ?n" by auto
  then have j: "?j < length (shapes ?st)" by simp
  have "?j + ?n - 1 = ?j + (?n - 1)" using n by arith
  then have "(?j + ?n - 1) mod ?n = (?j + (?n - 1)) mod ?n" by (rule arg_cong)
  also have "\<dots> = (k + m * (?n - 1) + (?n - 1)) mod ?n" by (rule mod_add_left_eq)
  also have "k + m * (?n - 1) + (?n - 1) = k + Suc m * (?n - 1)" by simp
  finally have idx: "(?j + ?n - 1) mod ?n = (k + Suc m * (?n - 1)) mod ?n" .
  have "onTabulation Tab_key ?st = ?st\<lparr>targetShapes := [shapes ?st ! ((?j + ?n - 1) mod ?n)]\<rparr>"
    using tab_step [of ?st ?j Tab_key] assms(1,2) j by (simp add: Tab_key_def)
  with Suc idx show ?case by simp
qed

lemma tab_then_shift_tab:
  assumes "mode st \<noteq> Create" "distinct (shapes st)" "k < length (shapes st)"
    and "targetShapes st = [shapes st ! k]"
  shows "onTabulation Shift_Tab_key (onTabulation Tab_key st) = st"
proof -
  let ?n = "length (shapes st)"
  let ?j = "(k + ?n - 1) mod ?n"
  let ?st = "st\<lparr>targetShapes := [shapes st ! ?j]\<rparr>"
  from assms have n: "0 < ?n" by auto
  have t: "onTabulation Tab_key st = ?st" using tab_step [OF assms, of Tab_key] by (simp add: Tab_key_def)
  have "(?j + 1) mod ?n = (k + ?n - 1 + 1) mod ?n" by (rule mod_add_left_eq)
  also have "k + ?n - 1 + 1 = k + ?n" using n by arith
  also have "(k + ?n) mod ?n = k" using assms(3) by simp
  finally have idx: "(?j + 1) mod ?n = k" .
  have "onTabulation Shift_Tab_key ?st = ?st\<lparr>targetShapes := [shapes ?st ! ((?j + 1) mod ?n)]\<rparr>"
    using tab_step [of ?st ?j Shift_Tab_key] assms(1,2) n by (simp add: Shift_Tab_key_def)
  with t idx assms(4) show ?thesis by simp
qed

lemma shift_tab_then_tab:
  assumes "mode st \<noteq> Create" "distinct (shapes st)" "k < length (shapes st)"
    and "targetShapes st = [shapes st ! k]"
  shows "onTabulation Tab_key (onTabulation Shift_Tab_key st) = st"
proof -
  let ?n = "length (shapes st)"
  let ?j = "(k + 1) mod ?n"
  let ?st = "st\<lparr>targetShapes := [shapes st ! ?j]\<rparr>"
  from assms have n: "0 < ?n" by auto
  have t: "onTabulation Shift_Tab_key st = ?st"
    using tab_step [OF assms, of Shift_Tab_key] by (simp add: Shift_Tab_key_def)
  have "?j + ?n - 1 = ?j + (?n - 1)" using n by arith
  then have "(?j + ?n - 1) mod ?n = (?j + (?n - 1)) mod ?n" by (rule arg_cong)
  also have "\<dots> = (k + 1 + (?n - 1)) mod ?n" by (rule mod_add_left_eq)
  also have "k + 1 + (?n - 1) = k + ?n" using n by arith
  also have "(k + ?n) mod ?n = k" using assms(3) by simp
  finally have idx: "(?j + ?n - 1) mod ?n = k" .
  have "onTabulation Tab_key ?st = ?st\<lparr>targetShapes := [shapes ?st ! ((?j + ?n - 1) mod ?n)]\<rparr>"
    using tab_step [of ?st ?j Tab_key] assms(1,2) n by (simp add: Tab_key_def)
  with t idx assms(4) show ?thesis by simp
qed

lemma or_zero_id: "or_zero i = i"
  by (simp add: or_zero_def)

lemma findIndex_from_range:
  "findIndex_from i p xs = - 1 \<or>
   (i \<le> findIndex_from i p xs \<and> findIndex_from i p xs < i + int (length xs))"
proof (induction xs arbitrary: i)
  case Nil
  show ?case by simp
next
  case (Cons x xs)
  from Cons [of "i + 1"] show ?case by auto
qed

lemma findIndex_range:
  "findIndex p xs = - 1 \<or> (0 \<le> findIndex p xs \<and> findIndex p xs < int (length xs))"
  using findIndex_from_range [of 0 p xs] by (simp add: findIndex_def)

lemma js_rem_in_range:
  assumes "0 < n" "0 \<le> a \<or> (a = - 1 \<and> n = 1)"
  shows "\<exists>j<nat n. js_rem a n = Some (int j)"
proof (cases "0 \<le> a")
  case True
  with assms(1) have "js_rem a n = Some (a mod n)" by (rule_tac js_rem_nonneg) simp_all
  moreover from assms(1) have "0 \<le> a mod n" "a mod n < n" by simp_all
  ultimately have "nat (a mod n) < nat n \<and> js_rem a n = Some (int (nat (a mod n)))" by simp
  then show ?thesis by blast
next
  case False
  with assms(2) have "a = - 1" "n = 1" by simp_all
  then have "(0::nat) < nat n \<and> js_rem a n = Some (int 0)" by (simp add: js_rem_def)
  then show ?thesis by blast
qed

lemma tab_selects_one:
  assumes "mode st \<noteq> Create" "shapes st \<noteq> []"
  shows "\<exists>j<length (shapes st). onTabulation e st = st\<lparr>targetShapes := [shapes st ! j]\<rparr>"
proof -
  let ?n = "int (length (shapes st))"
  let ?c = "findIndex (\<lambda>s. os_has s (targetShapes st)) (shapes st)"
  let ?x = "if shiftKey e then ?c + 1 + ?n else ?c - 1 + ?n"
  from assms(2) have n: "0 < ?n" by simp
  from findIndex_range [of "\<lambda>s. os_has s (targetShapes st)" "shapes st"]
  have c: "?c = - 1 \<or> (0 \<le> ?c \<and> ?c < ?n)" .
  from assms(2) have "0 < length (shapes st)" by simp
  then have "length (shapes st) = 1 \<or> 2 \<le> length (shapes st)" by arith
  with c have "0 \<le> ?x \<or> (?x = - 1 \<and> ?n = 1)" by auto
  from js_rem_in_range [OF n this] obtain j where j: "j < length (shapes st)"
    and r: "js_rem ?x ?n = Some (int j)"
    by auto
  have "onTabulation e st = st\<lparr>targetShapes := [shapes st ! j]\<rparr>"
    using assms(1) j r
    by (simp add: onTabulation_def Let_def or_zero_id js_index_nat targetShapes_set_eq os_set_single
        split: if_splits)
  with j show ?thesis by blast
qed

lemma tab_five_after_tab:
  assumes "length (shapes st) = 5" "distinct (shapes st)" "mode st \<noteq> Create"
  shows "(onTabulation Tab_key ^^ 5) (onTabulation Tab_key st) = onTabulation Tab_key st"
proof -
  from assms(1) have ne: "shapes st \<noteq> []" by auto
  from tab_selects_one [OF assms(3) ne, of Tab_key] obtain j where j: "j < length (shapes st)"
    and t: "onTabulation Tab_key st = st\<lparr>targetShapes := [shapes st ! j]\<rparr>"
    by blast
  let ?st = "st\<lparr>targetShapes := [shapes st ! j]\<rparr>"
  from j assms(1) have cyc: "(j + 20) mod 5 = j" by presburger
  have "(onTabulation Tab_key ^^ 5) ?st =
          ?st\<lparr>targetShapes := [shapes ?st ! ((j + 5 * (length (shapes ?st) - 1)) mod length (shapes ?st))]\<rparr>"
    using assms j by (intro tab_iterate) simp_all
  also have "\<dots> = ?st" using assms(1) cyc by simp
  finally show ?thesis by (simp only: t)
qed

lemma keyBinding_tab: "key e = ''Tab'' \<Longrightarrow> keyBinding e st = onTabulation e st"
  by (simp add: keyBinding_def)

lemma keyBinding_Tab: "keyBinding Tab_key = onTabulation Tab_key"
  by (rule ext) (simp add: keyBinding_def Tab_key_def)

lemma keyBinding_Shift_Tab: "keyBinding Shift_Tab_key = onTabulation Shift_Tab_key"
  by (rule ext) (simp add: keyBinding_def Shift_Tab_key_def)

section \<open>Invariants of the runs\<close>

lemma kept_subset: "set (os_set (filter (\<lambda>s. s \<in> set xs) ys)) \<subseteq> set xs"
  using os_set_subset [of "filter (\<lambda>s. s \<in> set xs) ys"] by auto

lemma shapes_add_sel: "selection_in_collection (shapes_add x st)"
  by (simp add: selection_in_collection_def shapes_add_eq kept_subset)

lemma shapes_delete_sel: "selection_in_collection (shapes_delete x st)"
  by (simp add: selection_in_collection_def shapes_delete_eq kept_subset)

lemma shapes_set_sel: "selection_in_collection (shapes_set xs st)"
  by (simp add: selection_in_collection_def shapes_set_eq kept_subset)

lemma shapes_add_unique: "unique_ids st \<Longrightarrow> unique_ids (shapes_add x st)"
  by (simp add: unique_ids_def shapes_add_eq os_add_distinct_ids)

lemma shapes_delete_unique: "unique_ids st \<Longrightarrow> unique_ids (shapes_delete x st)"
  by (simp add: unique_ids_def shapes_delete_eq os_delete_distinct_ids)

lemma shapes_set_unique: "unique_ids (shapes_set xs st)"
  by (simp add: unique_ids_def shapes_set_eq os_set_distinct_ids)

lemma paste_shape_sel: "selection_in_collection (paste_shape random st iv)"
  by (simp add: paste_shape_def Let_def shapes_add_sel)

lemma allocated_unique: "unique_ids st \<Longrightarrow> unique_ids (st\<lparr>allocated := n\<rparr>)"
  by (simp add: unique_ids_def)

lemma paste_shape_unique: "unique_ids st \<Longrightarrow> unique_ids (paste_shape random st iv)"
  by (simp add: paste_shape_def Let_def shapes_add_unique allocated_unique)

lemma foldl_paste_sel:
  "selection_in_collection st \<Longrightarrow> selection_in_collection (foldl (paste_shape random) st ivs)"
  by (induction ivs arbitrary: st) (simp_all add: paste_shape_sel)

lemma foldl_paste_unique:
  "unique_ids st \<Longrightarrow> unique_ids (foldl (paste_shape random) st ivs)"
  by (induction ivs arbitrary: st) (simp_all add: paste_shape_unique)

lemma foldl_delete_unique:
  "unique_ids st \<Longrightarrow> unique_ids (foldl (\<lambda>s x. shapes_delete x s) st xs)"
  by (induction xs arbitrary: st) (simp_all add: shapes_delete_unique)

lemma js_index_member: "js_index xs idx = Some x \<Longrightarrow> x \<in> set xs"
  by (auto simp: js_index_def split: option.splits if_splits)

lemma onTabulation_shapes: "shapes (onTabulation e st) = shapes st"
  by (simp add: onTabulation_def Let_def targetShapes_set_eq split: option.splits)

lemma onTabulation_dispatched: "dispatched (onTabulation e st) = dispatched st"
  by (simp add: onTabulation_def Let_def targetShapes_set_eq split: option.splits)

lemma onTabulation_sel:
  "selection_in_collection st \<Longrightarrow> selection_in_collection (onTabulation e st)"
  by (auto simp: selection_in_collection_def onTabulation_def Let_def targetShapes_set_eq
      os_set_single dest: js_index_member split: option.splits)

lemma keyBinding_sel: "selection_in_collection st \<Longrightarrow> selection_in_collection (keyBinding e st)"
  by (simp add: keyBinding_def onTabulation_sel)
     (simp add: selection_in_collection_def targetShapes_clear_eq)

lemma keyBinding_unique: "unique_ids st \<Longrightarrow> unique_ids (keyBinding e st)"
  using foldl_delete_unique [of st "targetShapes st"]
  by (simp add: keyBinding_def unique_ids_def onTabulation_shapes targetShapes_clear_eq)

lemma set_selectedShapeIds_eq:
  "set_selectedShapeIds ids st =
     st\<lparr>targetShapes := os_set (filter (\<lambda>s. shape_id s \<in> set ids) (shapes st))\<rparr>"
  by (simp add: set_selectedShapeIds_def targetShapes_set_eq)

lemma set_selectedShapeIds_sel: "selection_in_collection (set_selectedShapeIds ids st)"
  using os_set_subset [of "filter (\<lambda>s. shape_id s \<in> set ids) (shapes st)"]
  by (auto simp: selection_in_collection_def set_selectedShapeIds_eq)

lemma set_shapes_sel: "selection_in_collection (set_shapes val st)"
  by (simp add: set_shapes_def shapes_set_sel)

lemma set_shapes_unique: "unique_ids (set_shapes val st)"
  by (simp add: set_shapes_def shapes_set_unique)

lemma onPaste_sel:
  "selection_in_collection st \<Longrightarrow> onPaste random JSON_parse text st = Inr st' \<Longrightarrow>
     selection_in_collection st'"
  by (auto simp: onPaste_def foldl_paste_sel split: sum.splits json.splits)

lemma onPaste_unique:
  "unique_ids st \<Longrightarrow> onPaste random JSON_parse text st = Inr st' \<Longrightarrow> unique_ids st'"
  by (auto simp: onPaste_def foldl_paste_unique split: sum.splits json.splits)

lemma apply_op_sel: "selection_in_collection st \<Longrightarrow> selection_in_collection (apply_op st op)"
  by (cases op)
     (auto simp: shapes_add_sel shapes_delete_sel keyBinding_sel set_selectedShapeIds_sel
        set_shapes_sel dest: onPaste_sel split: sum.splits)

lemma targetShapes_unique: "unique_ids st \<Longrightarrow> unique_ids (st\<lparr>targetShapes := xs\<rparr>)"
  by (simp add: unique_ids_def)

lemma apply_op_unique: "unique_ids st \<Longrightarrow> unique_ids (apply_op st op)"
  by (cases op)
     (auto simp: shapes_add_unique allocated_unique shapes_delete_unique keyBinding_unique
        set_shapes_unique set_selectedShapeIds_eq targetShapes_unique
        dest: onPaste_unique split: sum.splits)

lemma foldl_apply_op_sel:
  "selection_in_collection st \<Longrightarrow> selection_in_collection (foldl apply_op st ops)"
  by (induction ops arbitrary: st) (simp_all add: apply_op_sel)

lemma foldl_apply_op_unique: "unique_ids st \<Longrightarrow> unique_ids (foldl apply_op st ops)"
  by (induction ops arbitrary: st) (simp_all add: apply_op_unique)

lemma run_unique: "unique_ids (run ops)"
  unfolding run_def by (rule foldl_apply_op_unique) (simp add: unique_ids_def Canvas2d_init_def)

lemma foldl_delete_dispatched:
  "dispatched (foldl (\<lambda>s x. shapes_delete x s) st xs) =
     dispatched st @ map (\<lambda>s. EvDelete [shape_id s]) xs"
  by (induction xs arbitrary: st) (simp_all add: shapes_delete_eq)

section \<open>Pasting\<close>

lemma emitted_append: "dispatched st' = dispatched st @ es \<Longrightarrow> emitted st st' = es"
  by (simp add: emitted_def)

lemma filter_create_map: "filter is_create (map EvCreate xs) = map EvCreate xs"
  by (induction xs) simp_all

lemma paste_shape_dispatched:
  "dispatched (paste_shape random st iv) =
     dispatched st @ [EvCreate \<lparr>ref = allocated st, shape_id = substring7 (random (fst iv)),
                               props = set_prop ''id'' (JStr (substring7 (random (fst iv))))
                                         (spread (snd iv))\<rparr>]"
  by (simp add: paste_shape_def Let_def shapes_add_eq observable_def)

lemma paste_shape_allocated: "allocated (paste_shape random st iv) = Suc (allocated st)"
  by (simp add: paste_shape_def Let_def shapes_add_eq)

lemma paste_shape_shapes:
  "shapes (paste_shape random st iv) =
     os_add \<lparr>ref = allocated st, shape_id = substring7 (random (fst iv)),
             props = set_prop ''id'' (JStr (substring7 (random (fst iv)))) (spread (snd iv))\<rparr>
       (shapes st)"
  by (simp add: paste_shape_def Let_def shapes_add_eq observable_def)

lemma foldl_paste_dispatched:
  "dispatched (foldl (paste_shape random) st ivs) =
     dispatched st @ map EvCreate (pasted_from random (allocated st) ivs)"
  by (induction ivs arbitrary: st) (simp_all add: paste_shape_dispatched paste_shape_allocated)

lemma foldl_paste_created:
  "filter is_create (emitted st (foldl (paste_shape random) st ivs)) =
     map EvCreate (pasted_from random (allocated st) ivs)"
  using emitted_append [OF foldl_paste_dispatched] by (simp add: filter_create_map)

lemma foldl_paste_shapes:
  "shapes (foldl (paste_shape random) st ivs) =
     foldl (\<lambda>xs x. os_add x xs) (shapes st) (pasted_from random (allocated st) ivs)"
  by (induction ivs arbitrary: st) (simp_all add: paste_shape_shapes paste_shape_allocated)

lemma pasted_from_length: "length (pasted_from random n ivs) = length ivs"
  by (induction ivs arbitrary: n) simp_all

lemma pasted_from_ids:
  "map shape_id (pasted_from random n ivs) = map (\<lambda>iv. substring7 (random (fst iv))) ivs"
  by (induction ivs arbitrary: n) simp_all

lemma pasted_from_nth:
  "i < length ivs \<Longrightarrow>
     pasted_from random n ivs ! i =
       \<lparr>ref = n + i, shape_id = substring7 (random (fst (ivs ! i))),
        props = set_prop ''id'' (JStr (substring7 (random (fst (ivs ! i)))))
                  (spread (snd (ivs ! i)))\<rparr>"
proof (induction ivs arbitrary: n i)
  case Nil
  then show ?case by simp
next
  case (Cons iv ivs)
  show ?case
  proof (cases i)
    case 0
    then show ?thesis by simp
  next
    case (Suc j)
    with Cons.prems have "j < length ivs" by simp
    from Cons.IH [OF this, of "Suc n"] Suc show ?thesis by simp
  qed
qed

lemma map_fst_zip_upt: "map (\<lambda>iv. f (fst iv)) (zip [0 ..< length vs] vs) = map f [0 ..< length vs]"
proof -
  have "map fst (zip [0 ..< length vs] vs) = [0 ..< length vs]" by (rule map_fst_zip) simp
  then have "map f (map fst (zip [0 ..< length vs] vs)) = map f [0 ..< length vs]" by (rule arg_cong)
  then show ?thesis unfolding map_map comp_def .
qed

lemma pasted_shapes_length: "length (pasted_shapes random n vs) = length vs"
  by (simp add: pasted_shapes_def pasted_from_length)

lemma pasted_shapes_ids:
  "map shape_id (pasted_shapes random n vs) = map (\<lambda>i. substring7 (random i)) [0 ..< length vs]"
  using map_fst_zip_upt [of "\<lambda>i. substring7 (random i)" vs]
  by (simp add: pasted_shapes_def pasted_from_ids)

lemma pasted_shapes_nth:
  assumes "i < length vs"
  shows "pasted_shapes random n vs ! i =
           \<lparr>ref = n + i, shape_id = substring7 (random i),
            props = set_prop ''id'' (JStr (substring7 (random i))) (spread (vs ! i))\<rparr>"
proof -
  from assms have "i < length (zip [0 ..< length vs] vs)" by simp
  from pasted_from_nth [OF this, of random n] assms show ?thesis
    by (simp add: pasted_shapes_def)
qed

lemma foldl_paste_shapes_fresh:
  assumes "distinct (map (\<lambda>iv. substring7 (random (fst iv))) ivs)"
    and "\<forall>iv\<in>set ivs. substring7 (random (fst iv)) \<notin> shape_id ` set (shapes st)"
  shows "shapes (foldl (paste_shape random) st ivs) =
           shapes st @ pasted_from random (allocated st) ivs"
  using assms
proof (induction ivs arbitrary: st)
  case Nil
  show ?case by simp
next
  case (Cons iv ivs)
  let ?new = "\<lparr>ref = allocated st, shape_id = substring7 (random (fst iv)),
               props = set_prop ''id'' (JStr (substring7 (random (fst iv)))) (spread (snd iv))\<rparr>"
  let ?st = "paste_shape random st iv"
  from Cons.prems(2) have sh: "shapes ?st = shapes st @ [?new]"
    by (simp add: paste_shape_shapes os_add_def)
  from Cons.prems(1) have d: "distinct (map (\<lambda>iv. substring7 (random (fst iv))) ivs)"
    and n: "substring7 (random (fst iv)) \<notin> (\<lambda>iv. substring7 (random (fst iv))) ` set ivs"
    by simp_all
  have "\<forall>jw\<in>set ivs. substring7 (random (fst jw)) \<notin> shape_id ` set (shapes ?st)"
  proof
    fix jw assume jw: "jw \<in> set ivs"
    then have "substring7 (random (fst jw)) \<in> (\<lambda>iv. substring7 (random (fst iv))) ` set ivs"
      by (rule imageI)
    with n have "substring7 (random (fst jw)) \<noteq> substring7 (random (fst iv))" by metis
    moreover from Cons.prems(2) jw
    have "substring7 (random (fst jw)) \<notin> shape_id ` set (shapes st)" by simp
    ultimately show "substring7 (random (fst jw)) \<notin> shape_id ` set (shapes ?st)"
      by (simp add: sh)
  qed
  note d this
  from Cons.IH [OF this] show ?case by (simp add: sh paste_shape_allocated)
qed

lemma paste_array_fresh:
  assumes "distinct (map (\<lambda>i. substring7 (random i)) [0 ..< length vs])"
    and "\<forall>i<length vs. substring7 (random i) \<notin> shape_id ` set (shapes st)"
  shows "shapes (foldl (paste_shape random) st (zip [0 ..< length vs] vs)) =
           shapes st @ pasted_shapes random (allocated st) vs"
proof -
  let ?ivs = "zip [0 ..< length vs] vs"
  from assms(1) have "distinct (map (\<lambda>iv. substring7 (random (fst iv))) ?ivs)"
    using map_fst_zip_upt [of "\<lambda>i. substring7 (random i)" vs] by simp
  moreover have "\<forall>iv\<in>set ?ivs. substring7 (random (fst iv)) \<notin> shape_id ` set (shapes st)"
  proof
    fix iv assume iv: "iv \<in> set ?ivs"
    obtain i v where "iv = (i, v)" by (cases iv)
    with iv have "i \<in> set [0 ..< length vs]" by (blast dest: set_zip_leftD)
    with assms(2) \<open>iv = (i, v)\<close> show "substring7 (random (fst iv)) \<notin> shape_id ` set (shapes st)"
      by simp
  qed
  ultimately show ?thesis unfolding pasted_shapes_def by (rule foldl_paste_shapes_fresh)
qed

lemma onPaste_array:
  "JSON_parse text = Inr (JArr vs) \<Longrightarrow>
     onPaste random JSON_parse text st =
       Inr (foldl (paste_shape random) st (zip [0 ..< length vs] vs))"
  by (simp add: onPaste_def)

lemma spread_shape_json: "spread (shape_json s) = props s"
  by (simp add: shape_json_def spread_def)

lemma filter_set_prop:
  "filter (\<lambda>kv. fst kv \<noteq> k) (set_prop k x ps) = filter (\<lambda>kv. fst kv \<noteq> k) ps"
  by (induction ps) simp_all

section \<open>Claims\<close>

text \<open>
  C1 (subset invariant). After every sequence of operations on a new element (adding
  and removing shapes, pasting, the keys \<^verbatim>\<open>Tab\<close>, \<^verbatim>\<open>Delete\<close> and \<^verbatim>\<open>Escape\<close>, assigning
  \<^verbatim>\<open>selectedShapeIds\<close>, assigning \<^verbatim>\<open>shapes\<close>) every selected shape is a shape of the
  collection; in particular a shape that is removed from the collection is not selected
  afterwards. When the collection changes, the selection is kept inside it by the
  shapes manager's observer, which is modelled from the spec.
\<close>

theorem subset_invariant:
  "set (targetShapes (run ops)) \<subseteq> set (shapes (run ops)) \<and>
   s \<notin> set (shapes (run (ops @ [Remove s]))) \<and>
   s \<notin> set (targetShapes (run (ops @ [Remove s])))"
proof -
  have init: "selection_in_collection Canvas2d_init"
    by (simp add: selection_in_collection_def Canvas2d_init_def)
  have inv: "selection_in_collection (run ops')" for ops'
    unfolding run_def using init by (rule foldl_apply_op_sel)
  have "run (ops @ [Remove s]) = shapes_delete s (run ops)" by (simp add: run_def)
  then have gone: "s \<notin> set (shapes (run (ops @ [Remove s])))"
    by (simp add: shapes_delete_eq os_delete_def)
  with inv [of "ops @ [Remove s]"] have "s \<notin> set (targetShapes (run (ops @ [Remove s])))"
    by (auto simp: selection_in_collection_def)
  with inv [of ops] gone show ?thesis by (simp add: selection_in_collection_def)
qed

theorem subset_invariant_witness:
  "set (targetShapes (run [SetShapes [plain ''a'', plain ''b'', plain ''c''],
                           SetSelectedShapeIds [''a'', ''c'']]))
     \<subseteq> set (shapes (run [SetShapes [plain ''a'', plain ''b'', plain ''c''],
                           SetSelectedShapeIds [''a'', ''c'']])) \<and>
   \<lparr>ref = 0, shape_id = ''a'', props = [(''id'', JStr ''a'')]\<rparr>
     \<notin> set (targetShapes (run ([SetShapes [plain ''a'', plain ''b'', plain ''c''],
                                  SetSelectedShapeIds [''a'', ''c'']]
                                 @ [Remove \<lparr>ref = 0, shape_id = ''a'', props = [(''id'', JStr ''a'')]\<rparr>]))) \<and>
   targetShapes (run [SetShapes [plain ''a'', plain ''b'', plain ''c''],
                      SetSelectedShapeIds [''a'', ''c'']])
     = [\<lparr>ref = 0, shape_id = ''a'', props = [(''id'', JStr ''a'')]\<rparr>, \<lparr>ref = 2, shape_id = ''c'', props = [(''id'', JStr ''c'')]\<rparr>] \<and>
   targetShapes (run [SetShapes [plain ''a'', plain ''b'', plain ''c''],
                      SetSelectedShapeIds [''a'', ''c''],
                      Remove \<lparr>ref = 0, shape_id = ''a'', props = [(''id'', JStr ''a'')]\<rparr>])
     = [\<lparr>ref = 2, shape_id = ''c'', props = [(''id'', JStr ''c'')]\<rparr>]"
proof -
  have a: "targetShapes (run [SetShapes [plain ''a'', plain ''b'', plain ''c''],
                      SetSelectedShapeIds [''a'', ''c'']])
     = [\<lparr>ref = 0, shape_id = ''a'', props = [(''id'', JStr ''a'')]\<rparr>, \<lparr>ref = 2, shape_id = ''c'', props = [(''id'', JStr ''c'')]\<rparr>]"
    by code_simp
  have b: "targetShapes (run [SetShapes [plain ''a'', plain ''b'', plain ''c''],
                      SetSelectedShapeIds [''a'', ''c''],
                      Remove \<lparr>ref = 0, shape_id = ''a'', props = [(''id'', JStr ''a'')]\<rparr>])
     = [\<lparr>ref = 2, shape_id = ''c'', props = [(''id'', JStr ''c'')]\<rparr>]"
    by code_simp
  from subset_invariant [of "[SetShapes [plain ''a'', plain ''b'', plain ''c''],
                      SetSelectedShapeIds [''a'', ''c'']]" "\<lparr>ref = 0, shape_id = ''a'', props = [(''id'', JStr ''a'')]\<rparr>"]
    a b
  show ?thesis by blast
qed

text \<open>
  C2 (events of a deletion), as amended. Pressing \<^verbatim>\<open>Delete\<close> with \<open>k\<close> selected shapes
  dispatches \<open>k\<close> events \<^verbatim>\<open>delete\<close>, one for each selected shape in the order of the
  selection, each carrying the list of that one id. There is a single event only when
  a single shape is selected.
\<close>

theorem delete_key_events:
  "filter is_delete (emitted st (keyBinding \<lparr>key = ''Delete'', shiftKey = b\<rparr> st)) =
     map (\<lambda>s. EvDelete [shape_id s]) (targetShapes st)"
  by (simp add: keyBinding_def emitted_def targetShapes_clear_eq foldl_delete_dispatched
      filter_map comp_def)

theorem delete_key_events_witness:
  "filter is_delete (emitted two_selected (keyBinding \<lparr>key = ''Delete'', shiftKey = False\<rparr> two_selected)) =
     map (\<lambda>s. EvDelete [shape_id s]) (targetShapes two_selected) \<and>
   map shape_id (targetShapes two_selected) = [''a'', ''c'']"
proof -
  have "map shape_id (targetShapes two_selected) = [''a'', ''c'']" by code_simp
  with delete_key_events [of two_selected False] show ?thesis by (rule conjI)
qed

text \<open>
  The claim as stated fails: with the two shapes \<open>a\<close> and \<open>c\<close> selected, \<^verbatim>\<open>Delete\<close>
  dispatches two events \<^verbatim>\<open>delete\<close> of one id each, not one event with both ids.
\<close>

theorem delete_key_single_event_counterexample:
  "length (targetShapes two_selected) = 2 \<and>
   filter is_delete (emitted two_selected (keyBinding Delete_key two_selected)) =
     [EvDelete [''a''], EvDelete [''c'']] \<and>
   filter is_delete (emitted two_selected (keyBinding Delete_key two_selected)) \<noteq>
     [EvDelete [''a'', ''c'']]"
  by code_simp

text \<open>
  C3 (events of a selection change), as amended. A \<^verbatim>\<open>selection\<close> event carrying the ids
  of the selected shapes is dispatched when the selection set notifies a change whose
  kind is not \<^verbatim>\<open>'set'\<close>, as for the addition or the removal of one shape. A change made
  through \<^verbatim>\<open>targetShapes.set\<close>, which is how assigning \<^verbatim>\<open>selectedShapeIds\<close> and \<^verbatim>\<open>Tab\<close>
  navigation change the selection, dispatches no event.
\<close>

theorem selection_event_kinds:
  "(prop \<noteq> ''set'' \<longrightarrow>
      emitted st (targetShapes_observer prop st) = [EvSelection (map shape_id (targetShapes st))]) \<and>
   emitted st (targetShapes_add x st) = [EvSelection (map shape_id (os_add x (targetShapes st)))] \<and>
   emitted st (targetShapes_delete x st) =
     [EvSelection (map shape_id (os_delete x (targetShapes st)))] \<and>
   emitted st (targetShapes_set xs st) = [] \<and>
   emitted st (set_selectedShapeIds ids st) = [] \<and>
   emitted st (keyBinding \<lparr>key = ''Tab'', shiftKey = b\<rparr> st) = []"
  by (simp add: emitted_def targetShapes_observer_def notifySelection_def dispatchEvent_def
      targetShapes_add_def targetShapes_delete_def targetShapes_set_eq set_selectedShapeIds_eq
      keyBinding_def onTabulation_dispatched)

theorem selection_event_kinds_witness:
  "''add'' \<noteq> ''set'' \<and>
   emitted one_shape (targetShapes_observer ''add'' one_shape) =
     [EvSelection (map shape_id (targetShapes one_shape))] \<and>
   emitted one_shape (set_selectedShapeIds [''a''] one_shape) = []"
  using selection_event_kinds [of "''add''" one_shape "plain ''a''" "[]" "[''a'']" False]
  by simp

text \<open>
  The claim as stated fails: assigning \<^verbatim>\<open>selectedShapeIds\<close>, or pressing \<^verbatim>\<open>Tab\<close>, selects
  the shape \<open>a\<close> of an element where nothing was selected, and no event is dispatched.
\<close>

theorem selection_event_on_set_counterexample:
  "targetShapes one_shape = [] \<and>
   map shape_id (targetShapes (set_selectedShapeIds [''a''] one_shape)) = [''a''] \<and>
   emitted one_shape (set_selectedShapeIds [''a''] one_shape) = [] \<and>
   map shape_id (targetShapes (keyBinding Tab_key one_shape)) = [''a''] \<and>
   emitted one_shape (keyBinding Tab_key one_shape) = []"
  by code_simp

text \<open>
  C4 (ids of pasted shapes). The id of a pasted shape is
  \<^verbatim>\<open>Math.random().toString(36).substring(7)\<close>, and \<^verbatim>\<open>onPaste\<close> does not compare it with the
  ids of the collection. In an element whose only shape has the empty id (it was pasted
  while the random number was 0.5, rendered \<^verbatim>\<open>"0.i"\<close>, which has no character after the
  seventh), pasting the array \<^verbatim>\<open>[{}]\<close> while the random number is 0.5 again makes a shape
  with the empty id: the id of a shape that is in the collection.
\<close>

theorem paste_id_present_in_collection:
  "substring7 (half 0) = [] \<and>
   map shape_id (shapes blank_id) = [[]] \<and>
   parse_table ''[{}]'' = Inr (JArr [JObj []]) \<and>
   filter is_create (emitted blank_id (apply_op blank_id (Paste half parse_table ''[{}]''))) =
     [EvCreate \<lparr>ref = 1, shape_id = [], props = [(''id'', JStr [])]\<rparr>]"
  by code_simp

text \<open>
  C5 (malformed clipboard text), as amended. When \<^verbatim>\<open>JSON.parse\<close> throws on the text,
  \<^verbatim>\<open>onPaste\<close> fails with that error, which reaches the caller, and the element is left
  as it was. When the text is JSON for a value that is not an array, \<^verbatim>\<open>onPaste\<close>
  returns normally, without an error, and leaves the element as it is. When the text
  is JSON for an array, every element of the array is made a shape and added to the
  collection, in order, each with its \<^verbatim>\<open>create\<close> event: there is no partial
  application. (When the drawn ids are pairwise different and new to the collection,
  the collection is the former one followed by the new shapes.)
\<close>

theorem paste_malformed:
  "(\<forall>e. JSON_parse text = Inl e \<longrightarrow>
      onPaste random JSON_parse text st = Inl e \<and>
      apply_op st (Paste random JSON_parse text) = st) \<and>
   (\<forall>v. JSON_parse text = Inr v \<and> \<not> is_array v \<longrightarrow>
      onPaste random JSON_parse text st = Inr st) \<and>
   (\<forall>vs. JSON_parse text = Inr (JArr vs) \<longrightarrow>
      (\<exists>st'. onPaste random JSON_parse text st = Inr st' \<and>
             shapes st' =
               foldl (\<lambda>xs x. os_add x xs) (shapes st) (pasted_shapes random (allocated st) vs) \<and>
             filter is_create (emitted st st') =
               map EvCreate (pasted_shapes random (allocated st) vs) \<and>
             length (pasted_shapes random (allocated st) vs) = length vs \<and>
             (distinct (map (\<lambda>i. substring7 (random i)) [0 ..< length vs]) \<and>
              (\<forall>i<length vs. substring7 (random i) \<notin> shape_id ` set (shapes st)) \<longrightarrow>
                shapes st' = shapes st @ pasted_shapes random (allocated st) vs)))"
proof -
  have failure: "\<forall>e. JSON_parse text = Inl e \<longrightarrow>
      onPaste random JSON_parse text st = Inl e \<and>
      apply_op st (Paste random JSON_parse text) = st"
    by (simp add: onPaste_def)
  have skipped: "\<forall>v. JSON_parse text = Inr v \<and> \<not> is_array v \<longrightarrow>
      onPaste random JSON_parse text st = Inr st"
    by (auto simp: onPaste_def is_array_def split: json.splits)
  have added: "\<forall>vs. JSON_parse text = Inr (JArr vs) \<longrightarrow>
      (\<exists>st'. onPaste random JSON_parse text st = Inr st' \<and>
             shapes st' =
               foldl (\<lambda>xs x. os_add x xs) (shapes st) (pasted_shapes random (allocated st) vs) \<and>
             filter is_create (emitted st st') =
               map EvCreate (pasted_shapes random (allocated st) vs) \<and>
             length (pasted_shapes random (allocated st) vs) = length vs \<and>
             (distinct (map (\<lambda>i. substring7 (random i)) [0 ..< length vs]) \<and>
              (\<forall>i<length vs. substring7 (random i) \<notin> shape_id ` set (shapes st)) \<longrightarrow>
                shapes st' = shapes st @ pasted_shapes random (allocated st) vs))"
  proof (intro allI impI)
    fix vs assume p: "JSON_parse text = Inr (JArr vs)"
    let ?st' = "foldl (paste_shape random) st (zip [0 ..< length vs] vs)"
    have a: "onPaste random JSON_parse text st = Inr ?st'"
      using p by (rule onPaste_array [of JSON_parse "text" vs random st])
    have b: "shapes ?st' =
        foldl (\<lambda>xs x. os_add x xs) (shapes st) (pasted_shapes random (allocated st) vs)"
      by (simp only: foldl_paste_shapes pasted_shapes_def)
    have c: "filter is_create (emitted st ?st') =
        map EvCreate (pasted_shapes random (allocated st) vs)"
      by (simp only: foldl_paste_created pasted_shapes_def)
    have d: "length (pasted_shapes random (allocated st) vs) = length vs"
      by (rule pasted_shapes_length)
    have e: "distinct (map (\<lambda>i. substring7 (random i)) [0 ..< length vs]) \<and>
             (\<forall>i<length vs. substring7 (random i) \<notin> shape_id ` set (shapes st)) \<longrightarrow>
               shapes ?st' = shapes st @ pasted_shapes random (allocated st) vs"
      using paste_array_fresh [of random vs st] by blast
    from a b c d e
    show "\<exists>st'. onPaste random JSON_parse text st = Inr st' \<and>
             shapes st' =
               foldl (\<lambda>xs x. os_add x xs) (shapes st) (pasted_shapes random (allocated st) vs) \<and>
             filter is_create (emitted st st') =
               map EvCreate (pasted_shapes random (allocated st) vs) \<and>
             length (pasted_shapes random (allocated st) vs) = length vs \<and>
             (distinct (map (\<lambda>i. substring7 (random i)) [0 ..< length vs]) \<and>
              (\<forall>i<length vs. substring7 (random i) \<notin> shape_id ` set (shapes st)) \<longrightarrow>
                shapes st' = shapes st @ pasted_shapes random (allocated st) vs)"
      by blast
  qed
  from failure skipped added show ?thesis by (intro conjI)
qed

theorem paste_malformed_witness:
  "parse_table ''[1,'' = Inl SyntaxError \<and>
   onPaste half parse_table ''[1,'' one_shape = Inl SyntaxError \<and>
   apply_op one_shape (Paste half parse_table ''[1,'') = one_shape \<and>
   parse_table ''42'' = Inr (JNum ''42'') \<and> \<not> is_array (JNum ''42'') \<and>
   onPaste half parse_table ''42'' one_shape = Inr one_shape \<and>
   parse_table ''[{},[7]]'' = Inr (JArr [JObj [], JArr [JNum ''7'']]) \<and>
   (\<exists>st'. onPaste long_then_half parse_table ''[{},[7]]'' one_shape = Inr st' \<and>
          shapes st' =
            shapes one_shape @
            [\<lparr>ref = 1, shape_id = ''82mvyr'', props = [(''id'', JStr ''82mvyr'')]\<rparr>,
             \<lparr>ref = 2, shape_id = [], props = [(''0'', JNum ''7''), (''id'', JStr [])]\<rparr>] \<and>
          filter is_create (emitted one_shape st') =
            [EvCreate \<lparr>ref = 1, shape_id = ''82mvyr'', props = [(''id'', JStr ''82mvyr'')]\<rparr>,
             EvCreate \<lparr>ref = 2, shape_id = [],
                        props = [(''0'', JNum ''7''), (''id'', JStr [])]\<rparr>])"
proof -
  let ?vs = "[JObj [], JArr [JNum ''7'']]"
  have a: "parse_table ''[1,'' = Inl SyntaxError" by code_simp
  have b: "parse_table ''42'' = Inr (JNum ''42'') \<and> \<not> is_array (JNum ''42'')" by code_simp
  have c: "parse_table ''[{},[7]]'' = Inr (JArr ?vs)" by code_simp
  have f1: "distinct (map (\<lambda>i. substring7 (long_then_half i)) [0 ..< length ?vs])" by code_simp
  have "list_all (\<lambda>i. substring7 (long_then_half i) \<notin> shape_id ` set (shapes one_shape))
          [0 ..< length ?vs]"
    by code_simp
  then have f2: "\<forall>i<length ?vs. substring7 (long_then_half i) \<notin> shape_id ` set (shapes one_shape)"
    unfolding list_all_iff by (simp del: upt_Suc)
  have e: "pasted_shapes long_then_half (allocated one_shape) ?vs =
     [\<lparr>ref = 1, shape_id = ''82mvyr'', props = [(''id'', JStr ''82mvyr'')]\<rparr>,
      \<lparr>ref = 2, shape_id = [], props = [(''0'', JNum ''7''), (''id'', JStr [])]\<rparr>]"
    by code_simp
  note m1 = paste_malformed [of parse_table "''[1,''" half one_shape]
  note m2 = paste_malformed [of parse_table "''42''" half one_shape]
  note m3 = paste_malformed [of parse_table "''[{},[7]]''" long_then_half one_shape]
  from m1 a have r1: "onPaste half parse_table ''[1,'' one_shape = Inl SyntaxError \<and>
      apply_op one_shape (Paste half parse_table ''[1,'') = one_shape"
    by blast
  from m2 b have r2: "onPaste half parse_table ''42'' one_shape = Inr one_shape" by blast
  from m3 c f1 f2
  have "\<exists>st'. onPaste long_then_half parse_table ''[{},[7]]'' one_shape = Inr st' \<and>
          shapes st' = shapes one_shape @ pasted_shapes long_then_half (allocated one_shape) ?vs \<and>
          filter is_create (emitted one_shape st') =
            map EvCreate (pasted_shapes long_then_half (allocated one_shape) ?vs)"
    by blast
  then have r3: "\<exists>st'. onPaste long_then_half parse_table ''[{},[7]]'' one_shape = Inr st' \<and>
          shapes st' =
            shapes one_shape @
            [\<lparr>ref = 1, shape_id = ''82mvyr'', props = [(''id'', JStr ''82mvyr'')]\<rparr>,
             \<lparr>ref = 2, shape_id = [], props = [(''0'', JNum ''7''), (''id'', JStr [])]\<rparr>] \<and>
          filter is_create (emitted one_shape st') =
            [EvCreate \<lparr>ref = 1, shape_id = ''82mvyr'', props = [(''id'', JStr ''82mvyr'')]\<rparr>,
             EvCreate \<lparr>ref = 2, shape_id = [],
                        props = [(''0'', JNum ''7''), (''id'', JStr [])]\<rparr>]"
    unfolding e by simp
  from a b c r1 r2 r3 show ?thesis by blast
qed

text \<open>
  The claim as stated fails: the text \<^verbatim>\<open>{}\<close> is JSON for an object, not for an array,
  and \<^verbatim>\<open>onPaste\<close> returns normally on it; no error reaches the caller.
\<close>

theorem paste_non_array_counterexample:
  "parse_table ''{}'' = Inr (JObj []) \<and> \<not> is_array (JObj []) \<and>
   onPaste half parse_table ''{}'' one_shape = Inr one_shape \<and>
   onPaste half parse_table ''{}'' one_shape \<noteq> Inl SyntaxError"
  by code_simp

text \<open>
  C6 (first tabulation). When no shape is selected, \<^verbatim>\<open>findIndex\<close> yields \<open>-1\<close>, and
  \<^verbatim>\<open>|| 0\<close> leaves it as it is, since \<open>-1\<close> is truthy: the current index is not taken to be
  \<open>0\<close>. On five shapes with none selected, in mode \<^verbatim>\<open>"edit"\<close>, the next index is computed
  from \<open>-1\<close>: \<^verbatim>\<open>Shift+Tab\<close> selects the first shape \<open>a\<close> and \<^verbatim>\<open>Tab\<close> the fourth shape \<open>d\<close>.
  From the current index \<open>0\<close> the same computation gives the second shape \<open>b\<close> and the
  last shape \<open>e\<close>.
\<close>

theorem tab_without_selection_from_minus_one:
  "targetShapes five_shapes = [] \<and> mode five_shapes = Edit \<and>
   map shape_id (shapes five_shapes) = [''a'', ''b'', ''c'', ''d'', ''e''] \<and>
   findIndex (\<lambda>s. os_has s (targetShapes five_shapes)) (shapes five_shapes) = - 1 \<and>
   or_zero (findIndex (\<lambda>s. os_has s (targetShapes five_shapes)) (shapes five_shapes)) = - 1 \<and>
   map shape_id (targetShapes (keyBinding Shift_Tab_key five_shapes)) = [''a''] \<and>
   map shape_id (targetShapes (keyBinding Tab_key five_shapes)) = [''d''] \<and>
   map_option shape_id (js_index (shapes five_shapes) (js_rem (0 + 1 + 5) 5)) = Some ''b'' \<and>
   map_option shape_id (js_index (shapes five_shapes) (js_rem (0 - 1 + 5) 5)) = Some ''e''"
  by code_simp

text \<open>
  C7 (copy and paste), as amended. For every non-empty selection of shapes whose data
  \<^verbatim>\<open>JSON.stringify\<close> and \<^verbatim>\<open>JSON.parse\<close> give back unchanged, \<^verbatim>\<open>onCopy\<close> returns a text, and
  \<^verbatim>\<open>onPaste\<close> with that text adds to the collection one new shape per copied shape, in
  order, each with its \<^verbatim>\<open>create\<close> event: a new object whose properties are those of the
  copied shape, in the same order, with the drawn id in the place of the id. This is
  stated for drawn ids that are pairwise different and new to the collection; nothing is
  stated for other draws.
\<close>

theorem copy_paste_round_trip:
  assumes "targetShapes st \<noteq> []"
    and "JSON_parse (JSON_stringify (JArr (map shape_json (targetShapes st)))) =
           Inr (JArr (map shape_json (targetShapes st)))"
    and "distinct (map (\<lambda>i. substring7 (random i)) [0 ..< length (targetShapes st)])"
    and "\<forall>i<length (targetShapes st). substring7 (random i) \<notin> shape_id ` set (shapes st)"
  shows "\<exists>text st' cs.
           onCopy JSON_stringify st = Some text \<and>
           onPaste random JSON_parse text st = Inr st' \<and>
           shapes st' = shapes st @ cs \<and>
           filter is_create (emitted st st') = map EvCreate cs \<and>
           length cs = length (targetShapes st) \<and>
           (\<forall>i<length (targetShapes st).
              other_props (cs ! i) = other_props (targetShapes st ! i) \<and>
              props (cs ! i) =
                set_prop ''id'' (JStr (shape_id (cs ! i))) (props (targetShapes st ! i)) \<and>
              ref (cs ! i) = allocated st + i)"
proof -
  let ?vs = "map shape_json (targetShapes st)"
  let ?text = "JSON_stringify (JArr ?vs)"
  let ?st' = "foldl (paste_shape random) st (zip [0 ..< length ?vs] ?vs)"
  let ?cs = "pasted_shapes random (allocated st) ?vs"
  have copy: "onCopy JSON_stringify st = Some ?text" using assms(1) by (simp add: onCopy_def)
  have paste: "onPaste random JSON_parse ?text st = Inr ?st'"
    using assms(2) by (rule onPaste_array [of JSON_parse ?text ?vs random st])
  from assms(3,4) have sh: "shapes ?st' = shapes st @ ?cs"
    using paste_array_fresh [of random ?vs st] by simp
  have ev: "filter is_create (emitted st ?st') = map EvCreate ?cs"
    by (simp only: foldl_paste_created pasted_shapes_def)
  have len: "length ?cs = length (targetShapes st)" by (simp add: pasted_shapes_length)
  have each: "\<forall>i<length (targetShapes st).
      other_props (?cs ! i) = other_props (targetShapes st ! i) \<and>
      props (?cs ! i) = set_prop ''id'' (JStr (shape_id (?cs ! i))) (props (targetShapes st ! i)) \<and>
      ref (?cs ! i) = allocated st + i"
  proof (intro allI impI)
    fix i assume i: "i < length (targetShapes st)"
    then have "i < length ?vs" by simp
    from pasted_shapes_nth [OF this, of random "allocated st"] i
    have "?cs ! i = \<lparr>ref = allocated st + i, shape_id = substring7 (random i),
                     props = set_prop ''id'' (JStr (substring7 (random i)))
                               (props (targetShapes st ! i))\<rparr>"
      by (simp add: spread_shape_json)
    then show "other_props (?cs ! i) = other_props (targetShapes st ! i) \<and>
      props (?cs ! i) = set_prop ''id'' (JStr (shape_id (?cs ! i))) (props (targetShapes st ! i)) \<and>
      ref (?cs ! i) = allocated st + i"
      by (simp add: other_props_def filter_set_prop)
  qed
  from copy paste sh ev len each show ?thesis by blast
qed

theorem copy_paste_round_trip_witness:
  "targetShapes car_selected \<noteq> [] \<and>
   onCopy stringify_table car_selected = Some car_text \<and>
   parse_table car_text = Inr (JArr (map shape_json (targetShapes car_selected))) \<and>
   (\<exists>st' c.
      onPaste long_then_half parse_table car_text car_selected = Inr st' \<and>
      shapes st' = shapes car_selected @ [c] \<and>
      filter is_create (emitted car_selected st') = [EvCreate c] \<and>
      other_props c = other_props car_shape \<and>
      shape_id c = ''82mvyr'' \<and> ref c = 1)"
proof -
  let ?r = long_then_half
  have h1: "targetShapes car_selected \<noteq> []" by code_simp
  have t: "stringify_table (JArr (map shape_json (targetShapes car_selected))) = car_text"
    by code_simp
  have p: "parse_table car_text = Inr (JArr (map shape_json (targetShapes car_selected)))"
    by code_simp
  from t p have h2: "parse_table (stringify_table (JArr (map shape_json (targetShapes car_selected)))) =
      Inr (JArr (map shape_json (targetShapes car_selected)))"
    by simp
  have h3: "distinct (map (\<lambda>i. substring7 (?r i)) [0 ..< length (targetShapes car_selected)])"
    by code_simp
  have "list_all (\<lambda>i. substring7 (?r i) \<notin> shape_id ` set (shapes car_selected))
          [0 ..< length (targetShapes car_selected)]"
    by code_simp
  then have h4: "\<forall>i<length (targetShapes car_selected).
      substring7 (?r i) \<notin> shape_id ` set (shapes car_selected)"
    unfolding list_all_iff by (simp del: upt_Suc)
  have l: "length (targetShapes car_selected) = 1" by code_simp
  have s: "targetShapes car_selected ! 0 = car_shape" by code_simp
  have a: "allocated car_selected = 1" by code_simp
  have i: "substring7 (?r 0) = ''82mvyr''" by code_simp
  from copy_paste_round_trip [of car_selected parse_table stringify_table ?r, OF h1 h2 h3 h4]
  obtain copied st' cs where
    c1: "onCopy stringify_table car_selected = Some copied" and
    c2: "onPaste ?r parse_table copied car_selected = Inr st'" and
    c3: "shapes st' = shapes car_selected @ cs" and
    c4: "filter is_create (emitted car_selected st') = map EvCreate cs" and
    c5: "length cs = length (targetShapes car_selected)" and
    c6: "\<forall>i<length (targetShapes car_selected).
           other_props (cs ! i) = other_props (targetShapes car_selected ! i) \<and>
           props (cs ! i) =
             set_prop ''id'' (JStr (shape_id (cs ! i))) (props (targetShapes car_selected ! i)) \<and>
           ref (cs ! i) = allocated car_selected + i"
    by blast
  from c1 t h1 have tx: "copied = car_text" by (simp add: onCopy_def)
  from c5 l obtain c where cs: "cs = [c]" by (cases cs) simp_all
  from c6 l s a cs have o: "other_props c = other_props car_shape" and r: "ref c = 1" by simp_all
  from c2 tx have "onPaste ?r parse_table car_text car_selected = Inr st'" by simp
  from onPaste_array [of parse_table car_text _ ?r car_selected, OF p] this
  have st': "st' = foldl (paste_shape ?r) car_selected
                     (zip [0 ..< length (map shape_json (targetShapes car_selected))]
                        (map shape_json (targetShapes car_selected)))"
    by simp
  have "map shape_id (pasted_shapes ?r (allocated car_selected)
                        (map shape_json (targetShapes car_selected))) = [''82mvyr'']"
    by code_simp
  moreover from c4 cs st'
  have "map EvCreate (pasted_shapes ?r (allocated car_selected)
                        (map shape_json (targetShapes car_selected))) = [EvCreate c]"
    by (simp only: foldl_paste_created pasted_shapes_def) simp
  ultimately have d: "shape_id c = ''82mvyr''" by (auto simp: map_eq_Cons_conv)
  from c1 tx have k: "onCopy stringify_table car_selected = Some car_text" by simp
  from c2 tx c3 c4 cs o r d
  have "\<exists>st' c.
      onPaste ?r parse_table car_text car_selected = Inr st' \<and>
      shapes st' = shapes car_selected @ [c] \<and>
      filter is_create (emitted car_selected st') = [EvCreate c] \<and>
      other_props c = other_props car_shape \<and>
      shape_id c = ''82mvyr'' \<and> ref c = 1"
    by auto
  with h1 k p show ?thesis by blast
qed

text \<open>
  The claim as stated fails: a vertex of the selected rectangle is the number
  \<^verbatim>\<open>Infinity\<close>, which \<^verbatim>\<open>JSON.stringify\<close> prints as \<^verbatim>\<open>null\<close>; the shape that \<^verbatim>\<open>onPaste\<close>
  adds for the copy has the vertex \<^verbatim>\<open>null\<close>, so its geometry is not the geometry of the
  copied shape.
\<close>

theorem copy_paste_non_finite_counterexample:
  "map shape_id (targetShapes unbounded_selected) = [''a''] \<and>
   other_props (targetShapes unbounded_selected ! 0) =
     [(''geometry'',
       JObj [(''type'', JStr ''rectangle''),
             (''vertices'', JArr [JNum ''0'', JNum ''0'', JNum ''Infinity'', JNum ''1''])])] \<and>
   onCopy stringify_table unbounded_selected = Some unbounded_text \<and>
   parse_table unbounded_text =
     Inr (JArr [JObj [(''id'', JStr ''a''),
                      (''geometry'',
                       JObj [(''type'', JStr ''rectangle''),
                             (''vertices'', JArr [JNum ''0'', JNum ''0'', JNull, JNum ''1''])])]]) \<and>
   map other_props
     (shapes (apply_op unbounded_selected (Paste long_then_half parse_table unbounded_text))) =
     [[(''geometry'',
        JObj [(''type'', JStr ''rectangle''),
              (''vertices'', JArr [JNum ''0'', JNum ''0'', JNum ''Infinity'', JNum ''1''])])],
      [(''geometry'',
        JObj [(''type'', JStr ''rectangle''),
              (''vertices'', JArr [JNum ''0'', JNum ''0'', JNull, JNum ''1''])])]] \<and>
   map shape_id
     (shapes (apply_op unbounded_selected (Paste long_then_half parse_table unbounded_text))) =
     [''a'', ''82mvyr'']"
  by code_simp

text \<open>
  C8 (cyclic navigation). On a collection of five shapes, in a mode other than
  \<^verbatim>\<open>"create"\<close>: with no selection the first \<^verbatim>\<open>Tab\<close> selects the fourth shape; whatever
  was selected before, after one press of \<^verbatim>\<open>Tab\<close> five more presses lead back to the
  same state; from a selected shape, \<^verbatim>\<open>Tab\<close> selects the shape before it and
  \<^verbatim>\<open>Shift+Tab\<close> the shape after it (cyclically), five presses of \<^verbatim>\<open>Tab\<close> lead back to
  the state they started from, and \<^verbatim>\<open>Shift+Tab\<close> undoes \<^verbatim>\<open>Tab\<close> and conversely. The
  collection is a set: its list has no repetition.
\<close>

theorem cyclic_navigation:
  assumes "length (shapes st) = 5" "distinct (shapes st)" "mode st \<noteq> Create"
  shows "(targetShapes st = [] \<longrightarrow> targetShapes (keyBinding Tab_key st) = [shapes st ! 3]) \<and>
         (keyBinding Tab_key ^^ 5) (keyBinding Tab_key st) = keyBinding Tab_key st \<and>
         (\<forall>k<5. targetShapes st = [shapes st ! k] \<longrightarrow>
            (keyBinding Tab_key ^^ 5) st = st \<and>
            targetShapes (keyBinding Tab_key st) = [shapes st ! ((k + 4) mod 5)] \<and>
            targetShapes (keyBinding Shift_Tab_key st) = [shapes st ! ((k + 1) mod 5)] \<and>
            keyBinding Shift_Tab_key (keyBinding Tab_key st) = st \<and>
            keyBinding Tab_key (keyBinding Shift_Tab_key st) = st)"
proof (intro conjI impI allI)
  assume "targetShapes st = []"
  moreover from assms(1) have "shapes st \<noteq> []" by auto
  ultimately have "onTabulation Tab_key st = st\<lparr>targetShapes := [shapes st ! 3]\<rparr>"
    using assms tab_from_nothing [of st Tab_key] by (simp add: Tab_key_def)
  then show "targetShapes (keyBinding Tab_key st) = [shapes st ! 3]"
    by (simp add: keyBinding_Tab)
next
  from tab_five_after_tab [OF assms]
  show "(keyBinding Tab_key ^^ 5) (keyBinding Tab_key st) = keyBinding Tab_key st"
    by (simp only: keyBinding_Tab)
next
  fix k assume k: "k < 5" and sel: "targetShapes st = [shapes st ! k]"
  from k assms have kn: "k < length (shapes st)" by simp
  note step = tab_step [OF assms(3,2) kn sel]
  from k have cyc: "(k + 20) mod 5 = k" by presburger
  from tab_iterate [OF assms(3,2) kn sel, of 5] assms(1)
  have "(onTabulation Tab_key ^^ 5) st = st\<lparr>targetShapes := [shapes st ! ((k + 20) mod 5)]\<rparr>"
    by simp
  also have "\<dots> = st" unfolding cyc using sel by simp
  finally show "(keyBinding Tab_key ^^ 5) st = st" by (simp only: keyBinding_Tab)
  from step [of Tab_key] assms(1)
  show "targetShapes (keyBinding Tab_key st) = [shapes st ! ((k + 4) mod 5)]"
    by (simp add: keyBinding_tab Tab_key_def ac_simps)
  from step [of Shift_Tab_key] assms(1)
  show "targetShapes (keyBinding Shift_Tab_key st) = [shapes st ! ((k + 1) mod 5)]"
    by (simp add: keyBinding_tab Shift_Tab_key_def)
  from tab_then_shift_tab [OF assms(3,2) kn sel]
  show "keyBinding Shift_Tab_key (keyBinding Tab_key st) = st"
    by (simp add: keyBinding_Tab keyBinding_Shift_Tab)
  from shift_tab_then_tab [OF assms(3,2) kn sel]
  show "keyBinding Tab_key (keyBinding Shift_Tab_key st) = st"
    by (simp add: keyBinding_Tab keyBinding_Shift_Tab)
qed

theorem cyclic_navigation_witness:
  "length (shapes five_shapes) = 5 \<and> distinct (shapes five_shapes) \<and>
   mode five_shapes \<noteq> Create \<and> targetShapes five_shapes = [] \<and>
   targetShapes (keyBinding Tab_key five_shapes) = [shapes five_shapes ! 3] \<and>
   (keyBinding Tab_key ^^ 5) (keyBinding Tab_key five_shapes) = keyBinding Tab_key five_shapes \<and>
   keyBinding Shift_Tab_key (keyBinding Tab_key (keyBinding Tab_key five_shapes)) =
     keyBinding Tab_key five_shapes"
proof -
  let ?st = "keyBinding Tab_key five_shapes"
  have a: "length (shapes five_shapes) = 5" "distinct (shapes five_shapes)"
    "mode five_shapes \<noteq> Create" "targetShapes five_shapes = []"
    by code_simp+
  have b: "length (shapes ?st) = 5" "distinct (shapes ?st)" "mode ?st \<noteq> Create"
    "targetShapes ?st = [shapes ?st ! 3]"
    by code_simp+
  from cyclic_navigation [OF a(1-3)] a(4)
  have "targetShapes ?st = [shapes five_shapes ! 3]" by simp
  moreover have c: "(3::nat) < 5" by simp
  from cyclic_navigation [OF b(1-3), THEN conjunct2, THEN conjunct2, rule_format, OF c b(4)]
  have "(keyBinding Tab_key ^^ 5) ?st = ?st \<and> keyBinding Shift_Tab_key (keyBinding Tab_key ?st) = ?st"
    by simp
  ultimately show ?thesis using a by simp
qed

text \<open>
  C9 (tabulation on an empty collection). When the collection is empty, \<^verbatim>\<open>Tab\<close> and
  \<^verbatim>\<open>Shift+Tab\<close> leave the element as it is: the remainder modulo zero is \<^verbatim>\<open>NaN\<close>, the
  lookup at \<^verbatim>\<open>NaN\<close> is \<^verbatim>\<open>undefined\<close>, and nothing is selected. The handler has no
  failing branch.
\<close>

theorem tab_on_empty_collection:
  "shapes st = [] \<Longrightarrow> key event = ''Tab'' \<Longrightarrow>
     keyBinding event st = st \<and>
     js_rem a (int (length (shapes st))) = None \<and> js_index (shapes st) None = None"
  by (simp add: keyBinding_def tab_empty js_rem_def js_index_def)

theorem tab_on_empty_collection_witness:
  "shapes Canvas2d_init = [] \<and> key Shift_Tab_key = ''Tab'' \<and>
   keyBinding Shift_Tab_key Canvas2d_init = Canvas2d_init"
proof -
  have h1: "shapes Canvas2d_init = []" by (simp add: Canvas2d_init_def)
  have h2: "key Shift_Tab_key = ''Tab''" by (simp add: Shift_Tab_key_def)
  from tab_on_empty_collection [OF h1 h2, of 0] h1 h2 show ?thesis by simp
qed

text \<open>
  C10 (filter and ignore). In every state the element reaches, assigning a list of ids
  to \<^verbatim>\<open>selectedShapeIds\<close> selects exactly the shapes of the collection whose id is in
  the list, in the order of the collection; ids of no shape are ignored; the
  collection is unchanged and no event is dispatched. The setter has no failing
  branch.
\<close>

theorem selected_ids_filter_and_ignore:
  "targetShapes (set_selectedShapeIds ids (run ops)) =
     filter (\<lambda>s. shape_id s \<in> set ids) (shapes (run ops)) \<and>
   shapes (set_selectedShapeIds ids (run ops)) = shapes (run ops) \<and>
   dispatched (set_selectedShapeIds ids (run ops)) = dispatched (run ops)"
proof -
  have "distinct (map shape_id (shapes (run ops)))"
    using run_unique [of ops] by (simp add: unique_ids_def)
  then have "distinct (map shape_id (filter (\<lambda>s. shape_id s \<in> set ids) (shapes (run ops))))"
    by (rule distinct_map_filter)
  then show ?thesis by (simp add: set_selectedShapeIds_eq os_set_unique)
qed

theorem selected_ids_filter_and_ignore_witness:
  "targetShapes (set_selectedShapeIds [''c'', ''zz'', ''a'']
                   (run [SetShapes [plain ''a'', plain ''b'', plain ''c'']])) =
     filter (\<lambda>s. shape_id s \<in> set [''c'', ''zz'', ''a''])
       (shapes (run [SetShapes [plain ''a'', plain ''b'', plain ''c'']])) \<and>
   map shape_id (targetShapes (set_selectedShapeIds [''c'', ''zz'', ''a'']
                   (run [SetShapes [plain ''a'', plain ''b'', plain ''c'']]))) = [''a'', ''c'']"
proof -
  have "map shape_id (targetShapes (set_selectedShapeIds [''c'', ''zz'', ''a'']
                   (run [SetShapes [plain ''a'', plain ''b'', plain ''c'']]))) = [''a'', ''c'']"
    by code_simp
  with selected_ids_filter_and_ignore
         [of "[''c'', ''zz'', ''a'']" "[SetShapes [plain ''a'', plain ''b'', plain ''c'']]"]
  show ?thesis by simp
qed


end
